theory Spec2Isabelle
  imports Complex_Main
begin

section \<open>Palettes, divisions and the division list model (scene.py, lines 31-112)\<close>

text \<open>
  \<^verbatim>\<open>palettes.py\<close> is not part of the sources.  A palette is used through four
  members only: indexing \<^verbatim>\<open>palette[i]\<close>, \<^verbatim>\<open>palette.default\<close>, \<^verbatim>\<open>palette.highlight\<close>
  and \<^verbatim>\<open>palette.label\<close>.  The indexed colour function is taken as a total function
  on indices.
\<close>

record Palette =
  palette_index :: "nat \<Rightarrow> string"
  palette_default :: string
  palette_highlight :: string
  palette_label :: string

text \<open>\<^verbatim>\<open>@dataclass class Division: key: str; color: str\<close>\<close>

record Division =
  key :: string
  color :: string

text \<open>
  The dictionary part of the \<^verbatim>\<open>defaultdict\<close> that \<^verbatim>\<open>get_color_map\<close> returns.  Its
  default factory is \<^verbatim>\<open>lambda: self._default_color\<close>: a closure over the model object,
  so the fallback is read from the model at the time of the lookup.
\<close>

type_synonym ColorMap = "string \<rightharpoonup> string"

text \<open>
  The state of a \<^verbatim>\<open>DivisionListModel\<close>.  \<open>connected\<close> says whether \<^verbatim>\<open>dataChanged\<close> and
  \<^verbatim>\<open>modelReset\<close> are connected to \<^verbatim>\<open>handle_data_changed\<close> (the last two lines of
  \<^verbatim>\<open>__init__\<close>); \<open>colorMapChanged\<close> is the sequence of values the signal of that
  name has emitted, oldest first.
\<close>

record DivisionListModel =
  priv_palette :: Palette
  priv_default_color :: string
  priv_divisions :: "Division list"
  connected :: bool
  colorMapChanged :: "ColorMap list"

text \<open>\<^verbatim>\<open>map = {d.key: d.color for d in self._divisions}\<close>: a later division with the same
  key overwrites an earlier one.\<close>

definition get_color_map :: "DivisionListModel \<Rightarrow> ColorMap" where
  "get_color_map self =
     foldl (\<lambda>m d. m(key d \<mapsto> color d)) Map.empty (priv_divisions self)"

text \<open>
  \<^verbatim>\<open>color_map[k]\<close> on the \<^verbatim>\<open>defaultdict\<close>: a present key gives its value; a missing key
  calls the factory, which reads \<^verbatim>\<open>self._default_color\<close> of the model as it is now,
  stores the value under the key and returns it.
\<close>

definition ColorMap_getitem ::
  "DivisionListModel \<Rightarrow> ColorMap \<Rightarrow> string \<Rightarrow> string \<times> ColorMap" where
  "ColorMap_getitem self cm k =
     (case cm k of
        Some v \<Rightarrow> (v, cm)
      | None \<Rightarrow> (priv_default_color self, cm(k \<mapsto> priv_default_color self)))"

text \<open>\<^verbatim>\<open>handle_data_changed\<close>, run by the signals once they are connected.\<close>

definition handle_data_changed :: "DivisionListModel \<Rightarrow> DivisionListModel" where
  "handle_data_changed self =
     self\<lparr>colorMapChanged := colorMapChanged self @ [get_color_map self]\<rparr>"

definition endResetModel :: "DivisionListModel \<Rightarrow> DivisionListModel" where
  "endResetModel self = (if connected self then handle_data_changed self else self)"

definition set_divisions_from_keys :: "string list \<Rightarrow> DivisionListModel \<Rightarrow> DivisionListModel" where
  "set_divisions_from_keys keys self =
     (let palette = priv_palette self
      in endResetModel
           (self\<lparr>priv_divisions :=
              map (\<lambda>i. \<lparr>key = keys ! i, color = palette_index palette i\<rparr>) [0..<length keys]\<rparr>))"

definition set_palette :: "Palette \<Rightarrow> DivisionListModel \<Rightarrow> DivisionListModel" where
  "set_palette palette self =
     endResetModel
       (self\<lparr>priv_default_color := palette_default palette,
             priv_divisions :=
               map (\<lambda>(index, division). division\<lparr>color := palette_index palette index\<rparr>)
                 (enumerate 0 (priv_divisions self))\<rparr>)"

text \<open>\<^verbatim>\<open>__init__(names, palette)\<close>: the two resets run before the signals are connected.\<close>

definition DivisionListModel_init :: "string list \<Rightarrow> Palette \<Rightarrow> DivisionListModel" where
  "DivisionListModel_init names palette =
     (set_palette palette
        (set_divisions_from_keys names
           \<lparr>priv_palette = palette, priv_default_color = palette_default palette,
            priv_divisions = [], connected = False, colorMapChanged = []\<rparr>))
     \<lparr>connected := True\<rparr>"

definition rowCount :: "DivisionListModel \<Rightarrow> int" where
  "rowCount self = int (length (priv_divisions self))"

text \<open>A \<^verbatim>\<open>QModelIndex\<close>, as far as \<^verbatim>\<open>setData\<close> reads it.\<close>

record QModelIndex =
  isValid :: bool
  row :: int

datatype ItemDataRole = DisplayRole | EditRole | DecorationRole | UserRole int

text \<open>
  Python's \<^verbatim>\<open>str.isspace\<close> on one character, for the code points below 256, and
  \<^verbatim>\<open>str.strip()\<close>.
\<close>

definition isspace :: "char \<Rightarrow> bool" where
  "isspace c = (let n = (of_char c :: nat)
                in (9 \<le> n \<and> n \<le> 13) \<or> (28 \<le> n \<and> n \<le> 32) \<or> n = 133 \<or> n = 160)"

definition strip :: "string \<Rightarrow> string" where
  "strip s = rev (dropWhile isspace (rev (dropWhile isspace s)))"

definition startswith_hash :: "string \<Rightarrow> bool" where
  "startswith_hash s = (case s of [] \<Rightarrow> False | c # _ \<Rightarrow> c = CHR ''#'')"

text \<open>Lines 98-100 of \<^verbatim>\<open>setData\<close>: the string that is validated and stored.\<close>

definition normalize_color :: "string \<Rightarrow> string" where
  "normalize_color v =
     (let color = strip v
      in if \<not> startswith_hash color then CHR ''#'' # color else color)"

text \<open>
  \<^verbatim>\<open>QtGui.QColor.isValidColor\<close> belongs to Qt.  \<^verbatim>\<open>setData\<close> only calls it on a string
  that starts with \<^verbatim>\<open>#\<close>, where Qt accepts exactly the hexadecimal forms
  \<^verbatim>\<open>#RGB\<close>, \<^verbatim>\<open>#RRGGBB\<close>, \<^verbatim>\<open>#AARRGGBB\<close>, \<^verbatim>\<open>#RRRGGGBBB\<close> and \<^verbatim>\<open>#RRRRGGGGBBBB\<close>; colour
  names (strings without \<^verbatim>\<open>#\<close>) never reach it and are not modelled.
\<close>

definition ishex :: "char \<Rightarrow> bool" where
  "ishex c = (let n = (of_char c :: nat)
              in (48 \<le> n \<and> n \<le> 57) \<or> (65 \<le> n \<and> n \<le> 70) \<or> (97 \<le> n \<and> n \<le> 102))"

definition isValidColor :: "string \<Rightarrow> bool" where
  "isValidColor name =
     (case name of
        [] \<Rightarrow> False
      | c # digits \<Rightarrow>
          c = CHR ''#'' \<and> length digits \<in> {3, 6, 8, 9, 12} \<and> list_all ishex digits)"

text \<open>\<^verbatim>\<open>setData(index, value, role)\<close>: the returned flag and the model afterwards.
  \<^verbatim>\<open>dataChanged.emit\<close> runs \<^verbatim>\<open>handle_data_changed\<close> when connected.\<close>

definition setData ::
  "QModelIndex \<Rightarrow> string \<Rightarrow> ItemDataRole \<Rightarrow> DivisionListModel \<Rightarrow> bool \<times> DivisionListModel" where
  "setData index v role self =
     (if \<not> isValid index \<or> \<not> (0 \<le> row index \<and> row index < rowCount self) then (False, self)
      else if role = EditRole then
        (let color = normalize_color v
         in if \<not> isValidColor color then (False, self)
            else
              (let r = nat (row index);
                   self1 = self\<lparr>priv_divisions :=
                             (priv_divisions self)[r := (priv_divisions self ! r)\<lparr>color := color\<rparr>]\<rparr>
               in (True, if connected self1 then handle_data_changed self1 else self1)))
      else (False, self))"

text \<open>Two palettes used to evaluate the model on concrete inputs.\<close>

definition example_palette_1 :: Palette where
  "example_palette_1 =
     \<lparr>palette_index =
        (\<lambda>i. if i = 0 then ''#aa0000'' else if i = 1 then ''#00aa00'' else ''#0000aa''),
      palette_default = ''#777777'', palette_highlight = ''#ff00ff'', palette_label = ''One''\<rparr>"

definition example_palette_2 :: Palette where
  "example_palette_2 =
     \<lparr>palette_index = (\<lambda>i. if i = 0 then ''#111111'' else ''#222222''),
      palette_default = ''#999999'', palette_highlight = ''#00ffff'', palette_label = ''Two''\<rparr>"

section \<open>Settings (scene.py, lines 115-137)\<close>

text \<open>
  \<^verbatim>\<open>Settings\<close> is a \<^verbatim>\<open>PropertyObject\<close> of \<^verbatim>\<open>itaxotools.common.bindings\<close>, a library
  outside this repository.  Its properties are fields of the record; the six radius
  coefficients \<^verbatim>\<open>node_a .. node_f\<close> are floats and are left out.  A property write
  assigns the value and then calls what is bound to the property, in the order of the
  \<^verbatim>\<open>bind\<close> calls, before it returns.  \<open>palette_bindings\<close> holds the destinations that
  \<^verbatim>\<open>Settings.__init__\<close> binds to \<^verbatim>\<open>properties.palette\<close>.
\<close>

datatype PaletteDestination =
    divisions_set_palette
  | highlight_color_from_palette

record Settings =
  palette :: Palette
  divisions :: DivisionListModel
  highlight_color :: string
  rotational_movement :: bool
  recursive_movement :: bool
  label_movement :: bool
  node_label_template :: string
  edge_label_template :: string
  palette_bindings :: "PaletteDestination list"

text \<open>
  One bound call for a written palette: \<^verbatim>\<open>self.divisions.set_palette(value)\<close>, or the
  write of \<^verbatim>\<open>highlight_color\<close> with the proxy \<^verbatim>\<open>lambda x: x.highlight\<close>.
\<close>

fun notify_palette :: "Palette \<Rightarrow> Settings \<Rightarrow> PaletteDestination \<Rightarrow> Settings" where
  "notify_palette v self divisions_set_palette =
     self\<lparr>divisions := set_palette v (divisions self)\<rparr>"
| "notify_palette v self highlight_color_from_palette =
     self\<lparr>highlight_color := palette_highlight v\<rparr>"

text \<open>The write \<^verbatim>\<open>settings.palette = value\<close>.\<close>

definition write_palette :: "Palette \<Rightarrow> Settings \<Rightarrow> Settings" where
  "write_palette v self = foldl (notify_palette v) (self\<lparr>palette := v\<rparr>) (palette_bindings self)"

text \<open>
  \<^verbatim>\<open>Settings()\<close>: the property defaults of lines 116-131 and the two bindings of lines
  136-137.  \<open>spring\<close> stands for \<^verbatim>\<open>Palette.Spring()\<close>, \<open>magenta\<close> for the colour
  \<^verbatim>\<open>QtCore.Qt.magenta\<close>.
\<close>

definition Settings_init :: "Palette \<Rightarrow> string \<Rightarrow> Settings" where
  "Settings_init spring magenta =
     \<lparr>palette = spring,
      divisions = DivisionListModel_init [] spring,
      highlight_color = magenta,
      rotational_movement = True,
      recursive_movement = True,
      label_movement = False,
      node_label_template = ''NAME'',
      edge_label_template = ''(WEIGHT)'',
      palette_bindings = [divisions_set_palette, highlight_color_from_palette]\<rparr>"

section \<open>Graphics items\<close>

text \<open>
  \<^verbatim>\<open>items.py\<close> and \<^verbatim>\<open>items_new.py\<close> are not part of the sources.  An item is a
  reference to an object: its class and its identity.  \<^verbatim>\<open>Node\<close> is a \<^verbatim>\<open>Vertex\<close>
  (\<^verbatim>\<open>isinstance(node, Vertex)\<close> holds), and \<^verbatim>\<open>NodeNew\<close> is a \<^verbatim>\<open>VertexNew\<close>.
\<close>

type_synonym oid = nat

datatype Item =
    Vertex oid
  | Node oid
  | Label oid
  | Edge oid
  | BezierCurve oid
  | Block oid
  | VertexNew oid
  | NodeNew oid
  | EdgeNew oid
  | LabelNew oid

fun isinstance_Vertex :: "Item \<Rightarrow> bool" where
  "isinstance_Vertex (Vertex _) = True"
| "isinstance_Vertex (Node _) = True"
| "isinstance_Vertex _ = False"


fun isinstance_Label :: "Item \<Rightarrow> bool" where
  "isinstance_Label (Label _) = True"
| "isinstance_Label _ = False"

fun isinstance_Edge :: "Item \<Rightarrow> bool" where
  "isinstance_Edge (Edge _) = True"
| "isinstance_Edge _ = False"



datatype EdgeStyle = Bubbles | Bars | Plain | DotsWithText | Collapsed | PlainWithText

datatype error = KeyError | AttributeError

section \<open>GraphicsScene (scene.py, lines 140-366)\<close>

text \<open>What the scene's binding registry holds: a property or signal of the settings, and the bound
  method of an item.\<close>

datatype Source =
    rotational_movement_property
  | recursive_movement_property
  | label_movement_property
  | highlight_color_property
  | colorMapChanged_signal

datatype Slot =
    set_rotational_setting Item
  | set_recursive_setting Item
  | set_highlight_color Item
  | label_set_locked Item
  | label_set_highlight_color Item
  | update_colors Item

text \<open>
  The scene with the objects it refers to.  \<open>scene_items\<close> is what Qt's
  \<^verbatim>\<open>QGraphicsScene.items()\<close> holds, \<open>mouseGrabberItem\<close> is Qt's mouse grabber, set by
  \<^verbatim>\<open>item.grabMouse()\<close> and cleared by \<^verbatim>\<open>item.ungrabMouse()\<close>.  The attributes of edge
  and vertex objects are kept in stores indexed by the object; \<open>next_oid\<close> is the
  identity of the next object to be constructed.
\<close>

record GraphicsScene =
  settings :: Settings
  hovered_item :: "Item option"
  bindings :: "(Source \<times> Slot) list"
  scene_items :: "Item list"
  mouseGrabberItem :: "Item option"
  edge_node1 :: "Item \<Rightarrow> Item"
  edge_node2 :: "Item \<Rightarrow> Item"
  edge_segments :: "Item \<Rightarrow> int"
  edge_style :: "Item \<Rightarrow> EdgeStyle"
  vertex_children :: "Item \<Rightarrow> (Item \<times> Item) list"
  vertex_parent :: "Item \<Rightarrow> Item option"
  next_oid :: oid

subsection \<open>Hit testing (lines 219-244)\<close>

text \<open>
  \<^verbatim>\<open>closest_edge_distance\<close> starts as \<^verbatim>\<open>float('inf')\<close>: \<open>None\<close> stands for it, and
  \<open>distance_less d c\<close> is the test \<^verbatim>\<open>distance < closest_edge_distance\<close>.
\<close>

fun distance_less :: "real \<Rightarrow> real option \<Rightarrow> bool" where
  "distance_less d None = True"
| "distance_less d (Some c) = (d < c)"

text \<open>
  The loop over \<^verbatim>\<open>super().items(pos)\<close>.  \<open>at_pos\<close> is the list Qt returns for the position, top-most item
  first; \<open>distance item\<close> is the number lines 233-238 compute for an edge
  (\<^verbatim>\<open>QVector2D.distanceToLine\<close> from the point to the line through the mapped first end
  point along the line's unit vector), taken as a real number.
\<close>

fun getItemAtPos_loop ::
  "bool \<Rightarrow> bool \<Rightarrow> (Item \<Rightarrow> real) \<Rightarrow> Item list \<Rightarrow> Item option \<Rightarrow> real option \<Rightarrow> Item option" where
  "getItemAtPos_loop ignore_edges ignore_labels distance [] closest_edge_item closest_edge_distance =
     closest_edge_item"
| "getItemAtPos_loop ignore_edges ignore_labels distance (item # rest) closest_edge_item closest_edge_distance =
     (if isinstance_Vertex item then Some item
      else if isinstance_Label item \<and> \<not> ignore_labels then Some item
      else if isinstance_Edge item \<and> \<not> ignore_edges
              \<and> distance_less (distance item) closest_edge_distance
      then getItemAtPos_loop ignore_edges ignore_labels distance rest (Some item) (Some (distance item))
      else getItemAtPos_loop ignore_edges ignore_labels distance rest
             closest_edge_item closest_edge_distance)"

definition getItemAtPos ::
  "GraphicsScene \<Rightarrow> Item list \<Rightarrow> (Item \<Rightarrow> real) \<Rightarrow> bool \<Rightarrow> bool option \<Rightarrow> Item option" where
  "getItemAtPos self at_pos distance ignore_edges ignore_labels =
     (let ignore_labels =
            (case ignore_labels of None \<Rightarrow> \<not> label_movement (settings self) | Some b \<Rightarrow> b)
      in getItemAtPos_loop ignore_edges ignore_labels distance at_pos None None)"

subsection \<open>Mouse events (lines 153-204)\<close>

text \<open>
  The handlers an event calls on an item (\<^verbatim>\<open>hoverLeaveEvent\<close>, \<^verbatim>\<open>mousePressEvent\<close>, ...)
  belong to \<^verbatim>\<open>items.py\<close>; they act on the item, and the scene's own attributes are
  written by the scene only.
\<close>

definition mouseLeaveEvent :: "GraphicsScene \<Rightarrow> GraphicsScene" where
  "mouseLeaveEvent self =
     (case hovered_item self of
        Some item \<Rightarrow> self\<lparr>hovered_item := None\<rparr>
      | None \<Rightarrow> self)"

datatype MouseButton = LeftButton | RightButton | MiddleButton

text \<open>\<open>buttons\<close> says whether \<^verbatim>\<open>event.buttons()\<close> is non-zero.  With a grabber or a
  button down the event goes to Qt's own handler.\<close>

definition mouseMoveEvent ::
  "bool \<Rightarrow> Item list \<Rightarrow> (Item \<Rightarrow> real) \<Rightarrow> GraphicsScene \<Rightarrow> GraphicsScene" where
  "mouseMoveEvent buttons at_pos distance self =
     (if mouseGrabberItem self \<noteq> None \<or> buttons then self
      else
        (let item = getItemAtPos self at_pos distance False None
         in if hovered_item self \<noteq> None \<and> item = hovered_item self then self
            else self\<lparr>hovered_item := item\<rparr>))"

definition mousePressEvent ::
  "MouseButton \<Rightarrow> Item list \<Rightarrow> (Item \<Rightarrow> real) \<Rightarrow> GraphicsScene \<Rightarrow> GraphicsScene" where
  "mousePressEvent button at_pos distance self =
     (let self1 =
            (if button = LeftButton then
               (case getItemAtPos self at_pos distance True None of
                  Some item \<Rightarrow> self\<lparr>mouseGrabberItem := Some item\<rparr>
                | None \<Rightarrow> self)
             else self)
      in mouseMoveEvent True at_pos distance self1)"

definition mouseReleaseEvent ::
  "MouseButton \<Rightarrow> bool \<Rightarrow> Item list \<Rightarrow> (Item \<Rightarrow> real) \<Rightarrow> GraphicsScene \<Rightarrow> GraphicsScene" where
  "mouseReleaseEvent button buttons at_pos distance self =
     (let self1 =
            (if button = LeftButton then
               (case mouseGrabberItem self of
                  Some item \<Rightarrow> self\<lparr>mouseGrabberItem := None\<rparr>
                | None \<Rightarrow> self)
             else self)
      in mouseMoveEvent buttons at_pos distance self1)"

subsection \<open>Edge styling (lines 292-304)\<close>

text \<open>The dictionary of line 295; a missing key raises \<^verbatim>\<open>KeyError\<close>.\<close>

fun style_cutoff :: "EdgeStyle \<Rightarrow> EdgeStyle option" where
  "style_cutoff Bubbles = Some DotsWithText"
| "style_cutoff Bars = Some Collapsed"
| "style_cutoff Plain = Some PlainWithText"
| "style_cutoff _ = None"

text \<open>Modelled from the spec: \<^verbatim>\<open>Edge.set_style\<close> (\<^verbatim>\<open>items.py\<close>, not in the sources) stores
  the rendering style of the edge.\<close>

definition set_style :: "Item \<Rightarrow> EdgeStyle \<Rightarrow> GraphicsScene \<Rightarrow> GraphicsScene" where
  "set_style edge style self = self\<lparr>edge_style := (edge_style self)(edge := style)\<rparr>"

text \<open>
  \<^verbatim>\<open>if not cutoff: cutoff = float('inf')\<close>: with an integer cutoff the test
  \<^verbatim>\<open>edge.segments <= cutoff\<close> is then true for every edge.
\<close>

definition segments_within :: "int \<Rightarrow> int \<Rightarrow> bool" where
  "segments_within segments cutoff = (if cutoff = 0 then True else segments \<le> cutoff)"

definition styleEdges :: "EdgeStyle \<Rightarrow> int \<Rightarrow> GraphicsScene \<Rightarrow> error option \<times> GraphicsScene" where
  "styleEdges style_default cutoff self =
     (case style_cutoff style_default of
        None \<Rightarrow> (Some KeyError, self)
      | Some collapsed \<Rightarrow>
          (None,
           foldl (\<lambda>s edge.
                    let style = (if segments_within (edge_segments s edge) cutoff
                                 then style_default else collapsed)
                    in set_style edge style s)
             self (filter isinstance_Edge (scene_items self))))"

subsection \<open>Topology (lines 343-362)\<close>

text \<open>The call \<^verbatim>\<open>bind(source, slot)\<close> on the scene's registry records the binding.\<close>

definition bind :: "Source \<Rightarrow> Slot \<Rightarrow> GraphicsScene \<Rightarrow> GraphicsScene" where
  "bind source slot self = self\<lparr>bindings := bindings self @ [(source, slot)]\<rparr>"

text \<open>
  \<^verbatim>\<open>create_edge(node1, node2, segments)\<close>: the constructor call
  \<^verbatim>\<open>Edge(node1, node2, segments)\<close> makes a new object that connects the two vertices
  with the given segment count (its other attributes keep what the constructor of
  \<^verbatim>\<open>items.py\<close> gives them), then three bindings are made.
\<close>

definition create_edge :: "Item \<Rightarrow> Item \<Rightarrow> int \<Rightarrow> GraphicsScene \<Rightarrow> Item \<times> GraphicsScene" where
  "create_edge n1 n2 segments self =
     (let item = Edge (next_oid self);
          self1 = self\<lparr>next_oid := Suc (next_oid self),
                       edge_node1 := (edge_node1 self)(item := n1),
                       edge_node2 := (edge_node2 self)(item := n2),
                       edge_segments := (edge_segments self)(item := segments)\<rparr>;
          self2 = bind highlight_color_property (set_highlight_color item) self1;
          self3 = bind label_movement_property (label_set_locked item) self2;
          self4 = bind highlight_color_property (label_set_highlight_color item) self3
      in (item, self4))"

text \<open>Modelled from the spec: \<^verbatim>\<open>Vertex.addChild(child, edge)\<close> (\<^verbatim>\<open>items.py\<close>, not in the
  sources).  The spec has a vertex be the child of at most one parent, and has the
  attempt to give a parent to a vertex that has one, or to make a vertex its own child,
  fail by a failure indicator, without raising and without any change.  Otherwise the
  pair of the child and the edge is registered in the child adjacency of the vertex the
  method is called on, and that vertex becomes the parent of the child.  The flag is
  the failure indicator: \<open>False\<close> when the registration was rejected.\<close>

definition addChild :: "Item \<Rightarrow> Item \<Rightarrow> Item \<Rightarrow> GraphicsScene \<Rightarrow> bool \<times> GraphicsScene" where
  "addChild parent child edge self =
     (if vertex_parent self child \<noteq> None \<or> parent = child then (False, self)
      else
        (True,
         self\<lparr>vertex_children :=
                (vertex_children self)(parent := vertex_children self parent @ [(child, edge)]),
              vertex_parent := (vertex_parent self)(child \<mapsto> parent)\<rparr>))"

text \<open>Qt's \<^verbatim>\<open>addItem\<close>: an item that is in the scene already is not added again.\<close>

definition addItem :: "Item \<Rightarrow> GraphicsScene \<Rightarrow> GraphicsScene" where
  "addItem item self =
     (if item \<in> set (scene_items self) then self
      else self\<lparr>scene_items := item # scene_items self\<rparr>)"

text \<open>\<^verbatim>\<open>add_child\<close> (lines 350-354).  Line 352 is the statement
  \<^verbatim>\<open>parent.addChild(child, edge)\<close>: what the call returns is dropped, and the two
  \<^verbatim>\<open>addItem\<close> calls follow in every case.  The method has no \<^verbatim>\<open>return\<close>.\<close>

definition add_child :: "Item \<Rightarrow> Item \<Rightarrow> int \<Rightarrow> GraphicsScene \<Rightarrow> GraphicsScene" where
  "add_child parent child segments self =
     (let (edge, self1) = create_edge parent child segments self;
          (registered, self2) = addChild parent child edge self1;
          self3 = addItem edge self2
      in addItem child self3)"

definition has_parent :: "GraphicsScene \<Rightarrow> Item \<Rightarrow> bool" where
  "has_parent self child = (vertex_parent self child \<noteq> None)"

text \<open>An empty scene, as \<^verbatim>\<open>GraphicsScene(settings)\<close> makes it.\<close>

definition GraphicsScene_init :: "Settings \<Rightarrow> GraphicsScene" where
  "GraphicsScene_init s =
     \<lparr>settings = s, hovered_item = None, bindings = [], scene_items = [],
      mouseGrabberItem = None,
      edge_node1 = (\<lambda>e. e), edge_node2 = (\<lambda>e. e), edge_segments = (\<lambda>_. 1),
      edge_style = (\<lambda>_. Bubbles), vertex_children = (\<lambda>_. []),
      vertex_parent = (\<lambda>_. None), next_oid = 0\<rparr>"

section \<open>GraphicsView: export (scene.py, lines 418-458)\<close>

datatype Export = SVG string | PDF string | PNG string

text \<open>The view with its scene; \<open>rendered\<close> lists the files the exports have written.\<close>

record GraphicsView =
  scene :: GraphicsScene
  rendered :: "Export list"

definition clear_mouse :: "GraphicsView \<Rightarrow> GraphicsView" where
  "clear_mouse self = self\<lparr>scene := mouseLeaveEvent (scene self)\<rparr>"

definition export_svg :: "string \<Rightarrow> GraphicsView \<Rightarrow> GraphicsView" where
  "export_svg file self =
     (let self1 = clear_mouse self in self1\<lparr>rendered := rendered self1 @ [SVG file]\<rparr>)"

definition export_pdf :: "string \<Rightarrow> GraphicsView \<Rightarrow> GraphicsView" where
  "export_pdf file self =
     (let self1 = clear_mouse self in self1\<lparr>rendered := rendered self1 @ [PDF file]\<rparr>)"

definition export_png :: "string \<Rightarrow> GraphicsView \<Rightarrow> GraphicsView" where
  "export_png file self =
     (let self1 = clear_mouse self in self1\<lparr>rendered := rendered self1 @ [PNG file]\<rparr>)"

section \<open>The scene of demo.py (lines 149-379)\<close>



























text \<open>Scenes used to evaluate the model on concrete inputs: the settings as constructed,
  and a scene with three nodes, the second a child of the first with three segments.\<close>

definition example_settings :: Settings where
  "example_settings = Settings_init example_palette_1 ''#ff00ff''"

definition example_graphics_scene :: GraphicsScene where
  "example_graphics_scene =
     add_child (Node 0) (Node 1) 3
       (addItem (Node 2) (addItem (Node 0) (GraphicsScene_init example_settings)))"

text \<open>The value of \<^verbatim>\<open>ignore_labels\<close> after lines 220-221, and the items on which the loop
  of \<^verbatim>\<open>getItemAtPos\<close> returns at once: a vertex, or a label when labels are not
  ignored.\<close>

definition effective_ignore_labels :: "GraphicsScene \<Rightarrow> bool option \<Rightarrow> bool" where
  "effective_ignore_labels self ignore_labels =
     (case ignore_labels of None \<Rightarrow> \<not> label_movement (settings self) | Some b \<Rightarrow> b)"

definition returns_at_once :: "bool \<Rightarrow> Item \<Rightarrow> bool" where
  "returns_at_once ignore_labels item =
     (isinstance_Vertex item \<or> (isinstance_Label item \<and> \<not> ignore_labels))"

text \<open>The example scene with label movement switched on, and a view on the example
  scene after the left button was pressed on node 1.\<close>

definition example_scene_labels_unlocked :: GraphicsScene where
  "example_scene_labels_unlocked =
     example_graphics_scene\<lparr>settings := example_settings\<lparr>label_movement := True\<rparr>\<rparr>"

definition example_view_pressed :: GraphicsView where
  "example_view_pressed =
     \<lparr>scene = mousePressEvent LeftButton [Node 1] (\<lambda>_. 0) example_graphics_scene,
      rendered = []\<rparr>"

section \<open>Properties of the division list model\<close>

lemma foldl_upd_notin:
  "k \<notin> key ` set ds \<Longrightarrow> foldl (\<lambda>m d. m(key d \<mapsto> color d)) m0 ds k = m0 k"
  by (induction ds arbitrary: m0) auto

lemma foldl_upd_in:
  "k \<in> key ` set ds \<Longrightarrow> foldl (\<lambda>m d. m(key d \<mapsto> color d)) m0 ds k \<noteq> None"
proof (induction ds arbitrary: m0)
  case Nil
  then show ?case by simp
next
  case (Cons d ds)
  show ?case
  proof (cases "k \<in> key ` set ds")
    case True
    then show ?thesis using Cons.IH by simp
  next
    case False
    then have "foldl (\<lambda>m d. m(key d \<mapsto> color d)) (m0(key d \<mapsto> color d)) ds k
                 = (m0(key d \<mapsto> color d)) k"
      by (rule foldl_upd_notin)
    moreover have "k = key d" using Cons.prems False by simp
    ultimately show ?thesis by (simp del: fun_upd_apply) simp
  qed
qed

lemma foldl_upd_last:
  "i < length ds \<Longrightarrow> (\<forall>j. i < j \<and> j < length ds \<longrightarrow> key (ds ! j) \<noteq> key (ds ! i)) \<Longrightarrow>
   foldl (\<lambda>m d. m(key d \<mapsto> color d)) m0 ds (key (ds ! i)) = Some (color (ds ! i))"
proof (induction ds arbitrary: m0 i)
  case Nil
  then show ?case by simp
next
  case (Cons d ds)
  show ?case
  proof (cases i)
    case 0
    have "\<forall>j<length ds. key (ds ! j) \<noteq> key d"
    proof (intro allI impI)
      fix j assume "j < length ds"
      with Cons.prems(2)[rule_format, of "Suc j"] 0 show "key (ds ! j) \<noteq> key d" by simp
    qed
    then have "key d \<notin> key ` set ds" by (auto simp: in_set_conv_nth)
    then have "foldl (\<lambda>m d. m(key d \<mapsto> color d)) (m0(key d \<mapsto> color d)) ds (key d)
                 = (m0(key d \<mapsto> color d)) (key d)"
      by (rule foldl_upd_notin)
    also have "\<dots> = Some (color d)" by simp
    finally show ?thesis using 0 by (simp del: fun_upd_apply)
  next
    case (Suc i')
    have a: "i' < length ds" using Cons.prems(1) Suc by simp
    have b: "\<forall>j. i' < j \<and> j < length ds \<longrightarrow> key (ds ! j) \<noteq> key (ds ! i')"
    proof (intro allI impI)
      fix j assume "i' < j \<and> j < length ds"
      with Cons.prems(2)[rule_format, of "Suc j"] Suc show "key (ds ! j) \<noteq> key (ds ! i')" by simp
    qed
    from Cons.IH[OF a b] Suc show ?thesis by simp
  qed
qed

lemma get_color_map_None_iff:
  "(get_color_map self k = None) = (k \<notin> key ` set (priv_divisions self))"
  unfolding get_color_map_def
  using foldl_upd_notin[of k "priv_divisions self" Map.empty]
        foldl_upd_in[of k "priv_divisions self" Map.empty]
  by auto

lemma divisions_set_divisions_from_keys:
  "priv_divisions (set_divisions_from_keys K self) =
     map (\<lambda>i. \<lparr>key = K ! i, color = palette_index (priv_palette self) i\<rparr>) [0..<length K]"
  by (simp add: set_divisions_from_keys_def endResetModel_def handle_data_changed_def Let_def)

lemma divisions_set_palette:
  "priv_divisions (set_palette P self) =
     map (\<lambda>(index, division). division\<lparr>color := palette_index P index\<rparr>)
       (enumerate 0 (priv_divisions self))"
  by (simp add: set_palette_def endResetModel_def handle_data_changed_def)

lemma default_set_palette: "priv_default_color (set_palette P self) = palette_default P"
  by (simp add: set_palette_def endResetModel_def handle_data_changed_def)

lemma length_divisions_set_palette:
  "length (priv_divisions (set_palette P self)) = length (priv_divisions self)"
  by (simp add: divisions_set_palette)

lemma nth_divisions_set_palette:
  "i < length (priv_divisions self) \<Longrightarrow>
   priv_divisions (set_palette P self) ! i = (priv_divisions self ! i)\<lparr>color := palette_index P i\<rparr>"
  by (simp add: divisions_set_palette nth_enumerate_eq)

lemma divisions_keys_then_palette:
  "priv_divisions (set_palette P (set_divisions_from_keys K self)) =
     map (\<lambda>i. \<lparr>key = K ! i, color = palette_index P i\<rparr>) [0..<length K]"
  by (rule nth_equalityI)
     (simp_all add: length_divisions_set_palette nth_divisions_set_palette
        divisions_set_divisions_from_keys)

lemma getitem_present: "cm k = Some v \<Longrightarrow> ColorMap_getitem self cm k = (v, cm)"
  by (simp add: ColorMap_getitem_def)

lemma getitem_missing:
  "cm k = None \<Longrightarrow>
   ColorMap_getitem self cm k = (priv_default_color self, cm(k \<mapsto> priv_default_color self))"
  by (simp add: ColorMap_getitem_def)

text \<open>
  Claim C2, as the code has it.  After \<^verbatim>\<open>set_divisions_from_keys(K)\<close> and
  \<^verbatim>\<open>set_palette(P)\<close>, a lookup in the colour map gives, for the key at index \<open>i\<close> of
  \<open>K\<close> that does not occur again after \<open>i\<close>, the palette colour \<open>P[i]\<close>, and for a
  key that is not in \<open>K\<close> the default colour of \<open>P\<close>.  When \<open>K\<close> has no duplicates
  every index qualifies.
\<close>

theorem color_map_after_keys_and_palette:
  "(\<forall>i<length K. (\<forall>j. i < j \<and> j < length K \<longrightarrow> K ! j \<noteq> K ! i) \<longrightarrow>
      fst (ColorMap_getitem (set_palette P (set_divisions_from_keys K self))
             (get_color_map (set_palette P (set_divisions_from_keys K self))) (K ! i))
        = palette_index P i) \<and>
   (\<forall>k. k \<notin> set K \<longrightarrow>
      fst (ColorMap_getitem (set_palette P (set_divisions_from_keys K self))
             (get_color_map (set_palette P (set_divisions_from_keys K self))) k)
        = palette_default P)"
proof (intro conjI allI impI)
  let ?m = "set_palette P (set_divisions_from_keys K self)"
  let ?ds = "map (\<lambda>i. \<lparr>key = K ! i, color = palette_index P i\<rparr>) [0..<length K]"
  have ds: "priv_divisions ?m = ?ds" by (rule divisions_keys_then_palette)
  {
    fix i assume i: "i < length K" and last: "\<forall>j. i < j \<and> j < length K \<longrightarrow> K ! j \<noteq> K ! i"
    have "foldl (\<lambda>m d. m(key d \<mapsto> color d)) Map.empty ?ds (key (?ds ! i)) = Some (color (?ds ! i))"
      by (rule foldl_upd_last) (use i last in simp_all)
    then have "get_color_map ?m (K ! i) = Some (palette_index P i)"
      using i by (simp add: get_color_map_def ds)
    then show "fst (ColorMap_getitem ?m (get_color_map ?m) (K ! i)) = palette_index P i"
      by (simp add: getitem_present)
  }
  {
    fix k assume k: "k \<notin> set K"
    have "key ` set ?ds = set K"
      by (auto simp: image_image set_conv_nth[of K])
    then have "get_color_map ?m k = None"
      using k by (simp add: get_color_map_None_iff ds del: set_map set_upt)
    then show "fst (ColorMap_getitem ?m (get_color_map ?m) k) = palette_default P"
      by (simp add: getitem_missing default_set_palette)
  }
qed

text \<open>The theorem at the keys \<open>[a, b, a]\<close>: \<open>b\<close> gets the colour of index 1, \<open>a\<close> the colour
  of its last index 2, and a foreign key the default.\<close>

theorem color_map_after_keys_and_palette_witness:
  "fst (ColorMap_getitem
          (set_palette example_palette_1
             (set_divisions_from_keys [''a'', ''b'', ''a''] (DivisionListModel_init [] example_palette_2)))
          (get_color_map
             (set_palette example_palette_1
                (set_divisions_from_keys [''a'', ''b'', ''a''] (DivisionListModel_init [] example_palette_2))))
          ''b'') = ''#00aa00'' \<and>
   fst (ColorMap_getitem
          (set_palette example_palette_1
             (set_divisions_from_keys [''a'', ''b'', ''a''] (DivisionListModel_init [] example_palette_2)))
          (get_color_map
             (set_palette example_palette_1
                (set_divisions_from_keys [''a'', ''b'', ''a''] (DivisionListModel_init [] example_palette_2))))
          ''a'') = ''#0000aa'' \<and>
   fst (ColorMap_getitem
          (set_palette example_palette_1
             (set_divisions_from_keys [''a'', ''b'', ''a''] (DivisionListModel_init [] example_palette_2)))
          (get_color_map
             (set_palette example_palette_1
                (set_divisions_from_keys [''a'', ''b'', ''a''] (DivisionListModel_init [] example_palette_2))))
          ''zz'') = ''#777777''"
proof -
  let ?K = "[''a'', ''b'', ''a'']"
  note t = color_map_after_keys_and_palette
             [of ?K example_palette_1 "DivisionListModel_init [] example_palette_2"]
  have l1: "\<forall>j. (1::nat) < j \<and> j < length ?K \<longrightarrow> ?K ! j \<noteq> ?K ! 1"
  proof (intro allI impI)
    fix j :: nat assume "1 < j \<and> j < length ?K"
    then have "j = 2" by simp
    then show "?K ! j \<noteq> ?K ! 1" by simp
  qed
  have l2: "\<forall>j. (2::nat) < j \<and> j < length ?K \<longrightarrow> ?K ! j \<noteq> ?K ! 2" by simp
  have z: "''zz'' \<notin> set ?K" by simp
  have a: "fst (ColorMap_getitem
          (set_palette example_palette_1
             (set_divisions_from_keys ?K (DivisionListModel_init [] example_palette_2)))
          (get_color_map
             (set_palette example_palette_1
                (set_divisions_from_keys ?K (DivisionListModel_init [] example_palette_2))))
          (?K ! 1)) = palette_index example_palette_1 1"
    by (rule t[THEN conjunct1, rule_format, of 1]) (simp, rule l1[rule_format], simp)
  have b: "fst (ColorMap_getitem
          (set_palette example_palette_1
             (set_divisions_from_keys ?K (DivisionListModel_init [] example_palette_2)))
          (get_color_map
             (set_palette example_palette_1
                (set_divisions_from_keys ?K (DivisionListModel_init [] example_palette_2))))
          (?K ! 2)) = palette_index example_palette_1 2"
    by (rule t[THEN conjunct1, rule_format, of 2]) (simp, rule l2[rule_format], simp)
  have c: "fst (ColorMap_getitem
          (set_palette example_palette_1
             (set_divisions_from_keys ?K (DivisionListModel_init [] example_palette_2)))
          (get_color_map
             (set_palette example_palette_1
                (set_divisions_from_keys ?K (DivisionListModel_init [] example_palette_2))))
          ''zz'') = palette_default example_palette_1"
    by (rule t[THEN conjunct2, rule_format]) (rule z)
  from a b c show ?thesis by (simp add: example_palette_1_def)
qed

text \<open>
  Claim C2 as stated, for every key sequence, fails on a repeated key: with the keys
  \<open>[a, a]\<close> the key \<open>a\<close> stands at index 0, and the map sends it to the colour of
  index 1.
\<close>

theorem color_map_duplicate_key_counterexample:
  "[''a'', ''a''] ! 0 = ''a'' \<and>
   fst (ColorMap_getitem
          (set_palette example_palette_1
             (set_divisions_from_keys [''a'', ''a''] (DivisionListModel_init [] example_palette_2)))
          (get_color_map
             (set_palette example_palette_1
                (set_divisions_from_keys [''a'', ''a''] (DivisionListModel_init [] example_palette_2))))
          ''a'')
     \<noteq> palette_index example_palette_1 0"
  by code_simp

lemma dropWhile_id_length: "length (dropWhile P xs) = length xs \<Longrightarrow> dropWhile P xs = xs"
  by (metis dropWhile_eq_drop diff_self_eq_0 drop0 takeWhile_dropWhile_id add_diff_cancel_right'
        length_append)

lemma strip_fixed:
  assumes "strip v = v"
  shows "dropWhile isspace v = v" and "rev (dropWhile isspace (rev v)) = v"
proof -
  have "length v = length (strip v)" using assms by simp
  also have "\<dots> \<le> length (dropWhile isspace v)"
    unfolding strip_def by (simp add: length_dropWhile_le order_trans[OF length_dropWhile_le])
  finally have "length (dropWhile isspace v) = length v"
    using length_dropWhile_le[of isspace v] by simp
  then show a: "dropWhile isspace v = v" by (rule dropWhile_id_length)
  from assms show "rev (dropWhile isspace (rev v)) = v" by (simp add: strip_def a)
qed

lemma strip_hash_cons:
  assumes "strip v = v"
  shows "strip (CHR ''#'' # v) = CHR ''#'' # v"
proof -
  have ns: "\<not> isspace CHR ''#''" by (simp add: isspace_def)
  have r: "rev (dropWhile isspace (rev v)) = v" using strip_fixed(2)[OF assms] .
  show ?thesis
  proof (cases "\<forall>x\<in>set v. isspace x")
    case True
    then have "dropWhile isspace v = []" by simp
    with strip_fixed(1)[OF assms] have "v = []" by simp
    then show ?thesis by (simp add: strip_def ns)
  next
    case False
    have "dropWhile isspace (rev v) = rev v" using r by (metis rev_rev_ident)
    with False show ?thesis by (auto simp add: strip_def ns dropWhile_append)
  qed
qed

lemma normalize_with_hash:
  assumes "strip v = v" "\<not> startswith_hash v"
  shows "normalize_color (CHR ''#'' # v) = normalize_color v"
  using assms by (simp add: normalize_color_def strip_hash_cons startswith_hash_def)

lemma zzzzzz_invalid:
  "normalize_color ''zzzzzz'' = ''#zzzzzz''" "\<not> isValidColor ''#zzzzzz''"
  by (simp_all add: normalize_color_def strip_def isspace_def startswith_hash_def
        isValidColor_def ishex_def)

lemma setData_rejected:
  assumes "isValid index" "0 \<le> row index" "row index < rowCount self"
    and "\<not> isValidColor (normalize_color v)"
  shows "setData index v EditRole self = (False, self)"
  using assms by (simp add: setData_def Let_def)

lemma setData_accepted:
  assumes "isValid index" "0 \<le> row index" "row index < rowCount self" "connected self"
    and "isValidColor (normalize_color v)"
  shows "setData index v EditRole self =
           (True,
            self\<lparr>priv_divisions :=
                   (priv_divisions self)[nat (row index) :=
                      (priv_divisions self ! nat (row index))\<lparr>color := normalize_color v\<rparr>],
                 colorMapChanged :=
                   colorMapChanged self @
                     [get_color_map
                        (self\<lparr>priv_divisions :=
                           (priv_divisions self)[nat (row index) :=
                              (priv_divisions self ! nat (row index))\<lparr>color := normalize_color v\<rparr>]\<rparr>)]\<rparr>)"
  using assms by (simp add: setData_def Let_def handle_data_changed_def)

lemma get_color_map_cong:
  "priv_divisions a = priv_divisions b \<Longrightarrow> get_color_map a = get_color_map b"
  by (simp add: get_color_map_def)

text \<open>
  Claim C5.  An edit of a division's colour through \<^verbatim>\<open>setData\<close> (valid index, edit role,
  signals connected) validates the stripped value with \<^verbatim>\<open>#\<close> put in front when it is
  missing.  When that string is not a valid colour the call returns \<open>False\<close> and the
  model, hence its colour map, is unchanged; \<^verbatim>\<open>zzzzzz\<close> is such a value.  When it is
  valid the call returns \<open>True\<close>, the division at the row holds the normalised string,
  and \<^verbatim>\<open>colorMapChanged\<close> has emitted the colour map of the model as it is after the
  edit.  A value without surrounding white space gives the same result with or without
  the leading \<^verbatim>\<open>#\<close>.
\<close>

theorem setData_color_edit:
  assumes "isValid index" and "0 \<le> row index" and "row index < rowCount self"
    and "connected self"
  shows "(\<not> isValidColor (normalize_color v) \<longrightarrow>
            setData index v EditRole self = (False, self) \<and>
            get_color_map (snd (setData index v EditRole self)) = get_color_map self) \<and>
         (isValidColor (normalize_color v) \<longrightarrow>
            fst (setData index v EditRole self) = True \<and>
            priv_divisions (snd (setData index v EditRole self)) =
              (priv_divisions self)[nat (row index) :=
                 (priv_divisions self ! nat (row index))\<lparr>color := normalize_color v\<rparr>] \<and>
            colorMapChanged (snd (setData index v EditRole self)) =
              colorMapChanged self @ [get_color_map (snd (setData index v EditRole self))]) \<and>
         (strip v = v \<and> \<not> startswith_hash v \<longrightarrow>
            setData index (CHR ''#'' # v) EditRole self = setData index v EditRole self) \<and>
         setData index ''zzzzzz'' EditRole self = (False, self)"
proof (intro conjI impI)
  assume inv: "\<not> isValidColor (normalize_color v)"
  show r: "setData index v EditRole self = (False, self)"
    by (rule setData_rejected[OF assms(1-3) inv])
  show "get_color_map (snd (setData index v EditRole self)) = get_color_map self"
    by (simp add: r)
next
  assume ok: "isValidColor (normalize_color v)"
  note acc = setData_accepted[OF assms ok]
  show "fst (setData index v EditRole self) = True" by (simp add: acc)
  show "priv_divisions (snd (setData index v EditRole self)) =
          (priv_divisions self)[nat (row index) :=
             (priv_divisions self ! nat (row index))\<lparr>color := normalize_color v\<rparr>]"
    by (simp add: acc)
  show "colorMapChanged (snd (setData index v EditRole self)) =
          colorMapChanged self @ [get_color_map (snd (setData index v EditRole self))]"
    by (simp add: acc get_color_map_def)
next
  assume "strip v = v \<and> \<not> startswith_hash v"
  then have "normalize_color (CHR ''#'' # v) = normalize_color v"
    by (simp add: normalize_with_hash)
  then show "setData index (CHR ''#'' # v) EditRole self = setData index v EditRole self"
    by (simp add: setData_def)
next
  show "setData index ''zzzzzz'' EditRole self = (False, self)"
    by (rule setData_rejected[OF assms(1-3)]) (simp add: zzzzzz_invalid)
qed

text \<open>The theorem on a model with the keys \<open>X\<close> and \<open>Y\<close>: \<^verbatim>\<open>zzzzzz\<close> is rejected, and
  \<^verbatim>\<open>ff8800\<close> is accepted with or without \<^verbatim>\<open>#\<close> and stored as \<^verbatim>\<open>#ff8800\<close>.\<close>

theorem setData_color_edit_witness:
  "setData \<lparr>isValid = True, row = 1\<rparr> ''zzzzzz'' EditRole
       (DivisionListModel_init [''X'', ''Y''] example_palette_1)
     = (False, DivisionListModel_init [''X'', ''Y''] example_palette_1) \<and>
   fst (setData \<lparr>isValid = True, row = 1\<rparr> ''ff8800'' EditRole
          (DivisionListModel_init [''X'', ''Y''] example_palette_1)) = True \<and>
   map color (priv_divisions (snd (setData \<lparr>isValid = True, row = 1\<rparr> ''ff8800'' EditRole
          (DivisionListModel_init [''X'', ''Y''] example_palette_1)))) = [''#aa0000'', ''#ff8800''] \<and>
   setData \<lparr>isValid = True, row = 1\<rparr> ''#ff8800'' EditRole
       (DivisionListModel_init [''X'', ''Y''] example_palette_1)
     = setData \<lparr>isValid = True, row = 1\<rparr> ''ff8800'' EditRole
         (DivisionListModel_init [''X'', ''Y''] example_palette_1)"
proof -
  let ?m = "DivisionListModel_init [''X'', ''Y''] example_palette_1"
  let ?i = "\<lparr>isValid = True, row = 1\<rparr>"
  have ds: "priv_divisions ?m =
              [\<lparr>key = ''X'', color = ''#aa0000''\<rparr>, \<lparr>key = ''Y'', color = ''#00aa00''\<rparr>]"
    by (simp add: DivisionListModel_init_def divisions_keys_then_palette upt_rec
          example_palette_1_def)
  have h1: "isValid ?i" by simp
  have h2: "0 \<le> row ?i" by simp
  have h3: "row ?i < rowCount ?m" by (simp add: rowCount_def ds)
  have h4: "connected ?m" by (simp add: DivisionListModel_init_def)
  have n: "normalize_color ''ff8800'' = ''#ff8800''"
    by (simp add: normalize_color_def strip_def isspace_def startswith_hash_def)
  have v: "isValidColor ''#ff8800''" by (simp add: isValidColor_def ishex_def)
  have s: "strip ''ff8800'' = ''ff8800'' \<and> \<not> startswith_hash ''ff8800''"
    by (simp add: strip_def isspace_def startswith_hash_def)
  note t = setData_color_edit[OF h1 h2 h3 h4, of "''ff8800''"]
  from t n v have a: "fst (setData ?i ''ff8800'' EditRole ?m) = True" by simp
  from t n v have b: "priv_divisions (snd (setData ?i ''ff8800'' EditRole ?m)) =
      (priv_divisions ?m)[nat (row ?i) := (priv_divisions ?m ! nat (row ?i))\<lparr>color := ''#ff8800''\<rparr>]"
    by simp
  from t s have c: "setData ?i ''#ff8800'' EditRole ?m = setData ?i ''ff8800'' EditRole ?m"
    by blast
  from t have d: "setData ?i ''zzzzzz'' EditRole ?m = (False, ?m)" by blast
  have b': "map color (priv_divisions (snd (setData ?i ''ff8800'' EditRole ?m))) =
              [''#aa0000'', ''#ff8800'']"
    unfolding b ds by simp
  from a b' c d show ?thesis by blast
qed

section \<open>Colour maps handed out earlier\<close>

lemma colorMapChanged_set_palette:
  "connected self \<Longrightarrow>
   colorMapChanged (set_palette P self) = colorMapChanged self @ [get_color_map (set_palette P self)]"
  by (simp add: set_palette_def endResetModel_def handle_data_changed_def get_color_map_def)

lemma colorMapChanged_set_divisions_from_keys:
  "connected self \<Longrightarrow>
   colorMapChanged (set_divisions_from_keys K self) =
     colorMapChanged self @ [get_color_map (set_divisions_from_keys K self)]"
  by (simp add: set_divisions_from_keys_def endResetModel_def handle_data_changed_def
        get_color_map_def Let_def)

lemma colorMapChanged_setData:
  "connected self \<Longrightarrow> fst (setData index v role self) \<Longrightarrow>
   colorMapChanged (snd (setData index v role self)) =
     colorMapChanged self @ [get_color_map (snd (setData index v role self))]"
  by (auto simp: setData_def Let_def handle_data_changed_def get_color_map_def
        split: if_splits)

lemma default_setData:
  "priv_default_color (snd (setData index v role self)) = priv_default_color self"
  by (simp add: setData_def Let_def handle_data_changed_def)

lemma default_set_divisions_from_keys:
  "priv_default_color (set_divisions_from_keys K self) = priv_default_color self"
  by (simp add: set_divisions_from_keys_def endResetModel_def handle_data_changed_def Let_def)

lemma get_color_map_last:
  assumes "i < length (priv_divisions self)"
    and "\<forall>j. i < j \<and> j < length (priv_divisions self) \<longrightarrow>
             key (priv_divisions self ! j) \<noteq> key (priv_divisions self ! i)"
  shows "get_color_map self (key (priv_divisions self ! i)) = Some (color (priv_divisions self ! i))"
  unfolding get_color_map_def by (rule foldl_upd_last[OF assms])

lemma get_color_map_set_palette_last:
  assumes "i < length (priv_divisions self)"
    and "\<forall>j. i < j \<and> j < length (priv_divisions self) \<longrightarrow>
             key (priv_divisions self ! j) \<noteq> key (priv_divisions self ! i)"
  shows "get_color_map (set_palette P self) (key (priv_divisions self ! i)) = Some (palette_index P i)"
proof -
  let ?m = "set_palette P self"
  have i: "i < length (priv_divisions ?m)" using assms(1) by (simp add: length_divisions_set_palette)
  have k: "\<And>j. j < length (priv_divisions self) \<Longrightarrow>
             key (priv_divisions ?m ! j) = key (priv_divisions self ! j)"
    by (simp add: nth_divisions_set_palette)
  have nd: "\<forall>j. i < j \<and> j < length (priv_divisions ?m) \<longrightarrow>
              key (priv_divisions ?m ! j) \<noteq> key (priv_divisions ?m ! i)"
  proof (intro allI impI)
    fix j assume j: "i < j \<and> j < length (priv_divisions ?m)"
    then have jl: "j < length (priv_divisions self)" by (simp add: length_divisions_set_palette)
    with j assms(2) have "key (priv_divisions self ! j) \<noteq> key (priv_divisions self ! i)"
      by blast
    then show "key (priv_divisions ?m ! j) \<noteq> key (priv_divisions ?m ! i)"
      using k[OF jl] k[OF assms(1)] by simp
  qed
  from get_color_map_last[OF i nd]
  show ?thesis using assms(1) by (simp add: nth_divisions_set_palette)
qed

text \<open>
  Claim C8, as the code has it.  A colour map made by \<^verbatim>\<open>get_color_map\<close> holds, for the key
  of each division (the last one with that key), the colour the division has at that
  time, and holds no other key.  A lookup of such a key gives that colour and leaves the
  map as it is, whatever state \<open>later\<close> the model is in when the lookup is made: after a
  palette swap the model's own new map has the new colour under the key, the map taken
  before still has the old one.  A lookup of a key that is not in the map gives the
  default colour the model has at the time of the lookup, and stores it in the map; a
  palette swap sets that default to the default of the new palette, a reset of the keys
  and a colour edit leave it.  A palette swap, a reset of the keys and an accepted
  colour edit of a connected model each emit the map built from the new divisions.
\<close>

theorem color_map_entries_snapshot:
  "(\<forall>i<length (priv_divisions self).
      (\<forall>j. i < j \<and> j < length (priv_divisions self) \<longrightarrow>
           key (priv_divisions self ! j) \<noteq> key (priv_divisions self ! i)) \<longrightarrow>
      get_color_map self (key (priv_divisions self ! i)) = Some (color (priv_divisions self ! i)) \<and>
      ColorMap_getitem later (get_color_map self) (key (priv_divisions self ! i)) =
        (color (priv_divisions self ! i), get_color_map self) \<and>
      get_color_map (set_palette P self) (key (priv_divisions self ! i)) = Some (palette_index P i)) \<and>
   (\<forall>k. k \<notin> key ` set (priv_divisions self) \<longrightarrow>
      get_color_map self k = None \<and>
      ColorMap_getitem later (get_color_map self) k =
        (priv_default_color later, (get_color_map self)(k \<mapsto> priv_default_color later))) \<and>
   priv_default_color (set_palette P self) = palette_default P \<and>
   priv_default_color (set_divisions_from_keys K self) = priv_default_color self \<and>
   priv_default_color (snd (setData index v role self)) = priv_default_color self \<and>
   (connected self \<longrightarrow>
      colorMapChanged (set_palette P self) =
        colorMapChanged self @ [get_color_map (set_palette P self)] \<and>
      colorMapChanged (set_divisions_from_keys K self) =
        colorMapChanged self @ [get_color_map (set_divisions_from_keys K self)] \<and>
      (fst (setData index v role self) \<longrightarrow>
         colorMapChanged (snd (setData index v role self)) =
           colorMapChanged self @ [get_color_map (snd (setData index v role self))]))"
proof (intro conjI allI impI)
  fix i
  assume i: "i < length (priv_divisions self)"
    and nd: "\<forall>j. i < j \<and> j < length (priv_divisions self) \<longrightarrow>
                key (priv_divisions self ! j) \<noteq> key (priv_divisions self ! i)"
  show g: "get_color_map self (key (priv_divisions self ! i)) = Some (color (priv_divisions self ! i))"
    by (rule get_color_map_last[OF i nd])
  show "ColorMap_getitem later (get_color_map self) (key (priv_divisions self ! i)) =
          (color (priv_divisions self ! i), get_color_map self)"
    using g by (simp add: getitem_present)
  show "get_color_map (set_palette P self) (key (priv_divisions self ! i)) = Some (palette_index P i)"
    by (rule get_color_map_set_palette_last[OF i nd])
next
  fix k
  assume k: "k \<notin> key ` set (priv_divisions self)"
  show n: "get_color_map self k = None" using k by (simp add: get_color_map_None_iff)
  show "ColorMap_getitem later (get_color_map self) k =
          (priv_default_color later, (get_color_map self)(k \<mapsto> priv_default_color later))"
    using n by (simp add: getitem_missing)
next
  show "priv_default_color (set_palette P self) = palette_default P"
    by (rule default_set_palette)
  show "priv_default_color (set_divisions_from_keys K self) = priv_default_color self"
    by (rule default_set_divisions_from_keys)
  show "priv_default_color (snd (setData index v role self)) = priv_default_color self"
    by (rule default_setData)
next
  assume c: "connected self"
  show "colorMapChanged (set_palette P self) =
          colorMapChanged self @ [get_color_map (set_palette P self)]"
    by (rule colorMapChanged_set_palette[OF c])
  show "colorMapChanged (set_divisions_from_keys K self) =
          colorMapChanged self @ [get_color_map (set_divisions_from_keys K self)]"
    by (rule colorMapChanged_set_divisions_from_keys[OF c])
  assume f: "fst (setData index v role self)"
  show "colorMapChanged (snd (setData index v role self)) =
          colorMapChanged self @ [get_color_map (snd (setData index v role self))]"
    by (rule colorMapChanged_setData[OF c f])
qed

text \<open>The theorem on a model with the key \<open>X\<close>, looked up after a swap to another
  palette: in the map taken before the swap \<open>X\<close> keeps its colour, while the map of the
  model has the new one; the foreign key \<open>Q\<close> gets the new default.\<close>

theorem color_map_entries_snapshot_witness:
  "ColorMap_getitem (set_palette example_palette_2 (DivisionListModel_init [''X''] example_palette_1))
      (get_color_map (DivisionListModel_init [''X''] example_palette_1)) ''X''
     = (''#aa0000'', get_color_map (DivisionListModel_init [''X''] example_palette_1)) \<and>
   get_color_map (set_palette example_palette_2 (DivisionListModel_init [''X''] example_palette_1)) ''X''
     = Some ''#111111'' \<and>
   fst (ColorMap_getitem (set_palette example_palette_2 (DivisionListModel_init [''X''] example_palette_1))
      (get_color_map (DivisionListModel_init [''X''] example_palette_1)) ''Q'') = ''#999999''"
proof -
  let ?m = "DivisionListModel_init [''X''] example_palette_1"
  let ?later = "set_palette example_palette_2 ?m"
  have ds: "priv_divisions ?m = [\<lparr>key = ''X'', color = ''#aa0000''\<rparr>]"
    by (simp add: DivisionListModel_init_def divisions_keys_then_palette upt_rec
          example_palette_1_def)
  note t = color_map_entries_snapshot[of ?m ?later example_palette_2]
  have i: "(0::nat) < length (priv_divisions ?m)" by (simp add: ds)
  have nd: "\<forall>j. (0::nat) < j \<and> j < length (priv_divisions ?m) \<longrightarrow>
              key (priv_divisions ?m ! j) \<noteq> key (priv_divisions ?m ! 0)"
    by (auto simp: ds)
  from t i nd have
    "ColorMap_getitem ?later (get_color_map ?m) (key (priv_divisions ?m ! 0)) =
        (color (priv_divisions ?m ! 0), get_color_map ?m) \<and>
     get_color_map ?later (key (priv_divisions ?m ! 0)) = Some (palette_index example_palette_2 0)"
    by blast
  then have a: "ColorMap_getitem ?later (get_color_map ?m) ''X'' = (''#aa0000'', get_color_map ?m)"
    and a2: "get_color_map ?later ''X'' = Some ''#111111''"
    by (simp_all add: ds example_palette_2_def)
  have q: "''Q'' \<notin> key ` set (priv_divisions ?m)" by (simp add: ds)
  from t q have "ColorMap_getitem ?later (get_color_map ?m) ''Q'' =
          (priv_default_color ?later, (get_color_map ?m)(''Q'' \<mapsto> priv_default_color ?later))"
    by blast
  moreover from t have "priv_default_color ?later = palette_default example_palette_2" by blast
  ultimately have b: "fst (ColorMap_getitem ?later (get_color_map ?m) ''Q'') = ''#999999''"
    by (simp add: example_palette_2_def)
  from a a2 b show ?thesis by blast
qed

text \<open>
  Claim C8 as stated fails for the fallback: a colour map is taken, then the palette is
  swapped; the lookup of a key that is not in the map now gives the default of the new
  palette, not the one it would have given before the swap.
\<close>

theorem color_map_default_counterexample:
  "fst (ColorMap_getitem (set_palette example_palette_2 (DivisionListModel_init [''X''] example_palette_1))
          (get_color_map (DivisionListModel_init [''X''] example_palette_1)) ''Q'')
   \<noteq> fst (ColorMap_getitem (DivisionListModel_init [''X''] example_palette_1)
          (get_color_map (DivisionListModel_init [''X''] example_palette_1)) ''Q'')"
  by code_simp

section \<open>The palette property of the settings\<close>

text \<open>
  Claim C7.  With the two bindings of \<^verbatim>\<open>Settings.__init__\<close>, one write of the palette
  property gives a settings object whose palette is the written one, whose highlight
  colour is the highlight colour of that palette, and whose divisions are the old ones
  after \<^verbatim>\<open>set_palette\<close>: the same keys, the division at index \<open>i\<close> coloured \<open>P[i]\<close>, and
  the default colour of the written palette.
\<close>

theorem palette_write_cascades:
  assumes "palette_bindings self = [divisions_set_palette, highlight_color_from_palette]"
  shows "palette (write_palette P self) = P \<and>
         highlight_color (write_palette P self) = palette_highlight P \<and>
         divisions (write_palette P self) = set_palette P (divisions self) \<and>
         length (priv_divisions (divisions (write_palette P self))) =
           length (priv_divisions (divisions self)) \<and>
         (\<forall>i<length (priv_divisions (divisions self)).
            priv_divisions (divisions (write_palette P self)) ! i =
              (priv_divisions (divisions self) ! i)\<lparr>color := palette_index P i\<rparr>) \<and>
         priv_default_color (divisions (write_palette P self)) = palette_default P"
proof -
  have d: "divisions (write_palette P self) = set_palette P (divisions self)"
    and p: "palette (write_palette P self) = P"
    and h: "highlight_color (write_palette P self) = palette_highlight P"
    using assms by (simp_all add: write_palette_def)
  show ?thesis
    unfolding d
    by (simp add: p h length_divisions_set_palette nth_divisions_set_palette default_set_palette)
qed

text \<open>The theorem on the settings as constructed, with the keys \<open>X\<close> and \<open>Y\<close>.\<close>

theorem palette_write_cascades_witness:
  "highlight_color
     (write_palette example_palette_1
        ((Settings_init example_palette_2 ''#ff00ff'')
           \<lparr>divisions := set_divisions_from_keys [''X'', ''Y'']
                           (divisions (Settings_init example_palette_2 ''#ff00ff''))\<rparr>))
     = ''#ff00ff'' \<and>
   priv_divisions
     (divisions
        (write_palette example_palette_1
           ((Settings_init example_palette_2 ''#ff00ff'')
              \<lparr>divisions := set_divisions_from_keys [''X'', ''Y'']
                              (divisions (Settings_init example_palette_2 ''#ff00ff''))\<rparr>)))
     = [\<lparr>key = ''X'', color = ''#aa0000''\<rparr>, \<lparr>key = ''Y'', color = ''#00aa00''\<rparr>]"
proof -
  let ?ini = "Settings_init example_palette_2 ''#ff00ff''"
  let ?s = "?ini\<lparr>divisions := set_divisions_from_keys [''X'', ''Y''] (divisions ?ini)\<rparr>"
  have b: "palette_bindings ?s = [divisions_set_palette, highlight_color_from_palette]"
    by (simp add: Settings_init_def)
  note t = palette_write_cascades[OF b, of example_palette_1]
  from t have h: "highlight_color (write_palette example_palette_1 ?s) = ''#ff00ff''"
    by (simp add: example_palette_1_def)
  from t have "divisions (write_palette example_palette_1 ?s)
                 = set_palette example_palette_1 (divisions ?s)" by blast
  then have "priv_divisions (divisions (write_palette example_palette_1 ?s))
               = priv_divisions (set_palette example_palette_1
                   (set_divisions_from_keys [''X'', ''Y''] (divisions ?ini)))"
    by simp
  also have "\<dots> = [\<lparr>key = ''X'', color = ''#aa0000''\<rparr>, \<lparr>key = ''Y'', color = ''#00aa00''\<rparr>]"
    by (simp add: divisions_keys_then_palette upt_rec example_palette_1_def)
  finally show ?thesis using h by blast
qed

section \<open>Edge styling\<close>

lemma style_fold:
  "foldl (\<lambda>s edge. set_style edge (if segments_within (edge_segments s edge) cutoff then d else c) s)
     self es
   = self\<lparr>edge_style :=
            (\<lambda>e. if e \<in> set es
                  then (if segments_within (edge_segments self e) cutoff then d else c)
                  else edge_style self e)\<rparr>"
proof (induction es arbitrary: self)
  case Nil
  show ?case by simp
next
  case (Cons a es)
  let ?f = "\<lambda>s edge. set_style edge
              (if segments_within (edge_segments s edge) cutoff then d else c) s"
  let ?st = "if segments_within (edge_segments self a) cutoff then d else c"
  let ?self' = "set_style a ?st self"
  have seg: "edge_segments ?self' = edge_segments self"
    and sty: "edge_style ?self' = (edge_style self)(a := ?st)"
    by (simp_all add: set_style_def)
  have eq: "(\<lambda>e. if e \<in> set es
                 then (if segments_within (edge_segments self e) cutoff then d else c)
                 else ((edge_style self)(a := ?st)) e)
            = (\<lambda>e. if e \<in> set (a # es)
                   then (if segments_within (edge_segments self e) cutoff then d else c)
                   else edge_style self e)"
    by (rule ext) simp
  have "foldl ?f self (a # es) = foldl ?f ?self' es" by simp
  also have "\<dots> = ?self'\<lparr>edge_style :=
                        (\<lambda>e. if e \<in> set es
                              then (if segments_within (edge_segments ?self' e) cutoff then d else c)
                              else edge_style ?self' e)\<rparr>"
    by (rule Cons.IH)
  also have "\<dots> = ?self'\<lparr>edge_style :=
                        (\<lambda>e. if e \<in> set (a # es)
                              then (if segments_within (edge_segments self e) cutoff then d else c)
                              else edge_style self e)\<rparr>"
    unfolding seg sty eq ..
  also have "\<dots> = self\<lparr>edge_style :=
                        (\<lambda>e. if e \<in> set (a # es)
                              then (if segments_within (edge_segments self e) cutoff then d else c)
                              else edge_style self e)\<rparr>"
    by (simp add: set_style_def)
  finally show ?case .
qed

lemma styleEdges_known:
  assumes "style_cutoff d = Some c"
  shows "styleEdges d cutoff self =
           (None,
            self\<lparr>edge_style :=
                   (\<lambda>e. if e \<in> set (filter isinstance_Edge (scene_items self))
                         then (if segments_within (edge_segments self e) cutoff then d else c)
                         else edge_style self e)\<rparr>)"
  using assms by (simp add: styleEdges_def Let_def style_fold del: set_filter)

text \<open>
  Claim C4.  For a default style among \<^verbatim>\<open>Bubbles\<close>, \<^verbatim>\<open>Bars\<close> and \<^verbatim>\<open>Plain\<close>,
  \<^verbatim>\<open>styleEdges\<close> raises nothing; afterwards every edge of the scene whose segment count
  is at most the cutoff, and every edge when the cutoff is 0, has the default style,
  and every other edge has the collapsed counterpart (\<^verbatim>\<open>DotsWithText\<close>, \<^verbatim>\<open>Collapsed\<close>,
  \<^verbatim>\<open>PlainWithText\<close>).  Segment counts and the items of the scene are unchanged.
\<close>

theorem styleEdges_assigns_styles:
  assumes "style_default \<in> {Bubbles, Bars, Plain}"
  shows "fst (styleEdges style_default cutoff self) = None \<and>
         (\<forall>edge \<in> set (scene_items self). isinstance_Edge edge \<longrightarrow>
            edge_style (snd (styleEdges style_default cutoff self)) edge =
              (if cutoff = 0 \<or> edge_segments self edge \<le> cutoff then style_default
               else (case style_default of
                       Bubbles \<Rightarrow> DotsWithText
                     | Bars \<Rightarrow> Collapsed
                     | _ \<Rightarrow> PlainWithText))) \<and>
         edge_segments (snd (styleEdges style_default cutoff self)) = edge_segments self \<and>
         scene_items (snd (styleEdges style_default cutoff self)) = scene_items self"
proof -
  from assms consider "style_default = Bubbles" | "style_default = Bars" | "style_default = Plain"
    by blast
  then show ?thesis
  proof cases
    case 1
    have "style_cutoff style_default = Some DotsWithText" using 1 by simp
    from styleEdges_known[OF this] 1 show ?thesis by (auto simp: segments_within_def)
  next
    case 2
    have "style_cutoff style_default = Some Collapsed" using 2 by simp
    from styleEdges_known[OF this] 2 show ?thesis by (auto simp: segments_within_def)
  next
    case 3
    have "style_cutoff style_default = Some PlainWithText" using 3 by simp
    from styleEdges_known[OF this] 3 show ?thesis by (auto simp: segments_within_def)
  qed
qed

lemma example_graphics_scene_items:
  "scene_items example_graphics_scene = [Node 1, Edge 0, Node 2, Node 0]"
  "edge_segments example_graphics_scene (Edge 0) = 3"
  "next_oid example_graphics_scene = 1"
  by (simp_all add: example_graphics_scene_def add_child_def create_edge_def bind_def
        addChild_def addItem_def GraphicsScene_init_def Let_def)

text \<open>The theorem with \<^verbatim>\<open>Bubbles\<close>: at cutoff 3 an edge of three segments gets
  \<^verbatim>\<open>Bubbles\<close>, at cutoff 2 it gets \<^verbatim>\<open>DotsWithText\<close>, at cutoff 0 \<^verbatim>\<open>Bubbles\<close> again.\<close>

theorem styleEdges_assigns_styles_witness:
  "edge_style (snd (styleEdges Bubbles 3 example_graphics_scene)) (Edge 0) = Bubbles \<and>
   edge_style (snd (styleEdges Bubbles 2 example_graphics_scene)) (Edge 0) = DotsWithText \<and>
   edge_style (snd (styleEdges Bubbles 0 example_graphics_scene)) (Edge 0) = Bubbles"
proof -
  have h: "Bubbles \<in> {Bubbles, Bars, Plain}" by simp
  have e: "Edge 0 \<in> set (scene_items example_graphics_scene)" "isinstance_Edge (Edge 0)"
    by (simp_all add: example_graphics_scene_items)
  from styleEdges_assigns_styles[OF h, of 3 example_graphics_scene] e
  have a: "edge_style (snd (styleEdges Bubbles 3 example_graphics_scene)) (Edge 0) = Bubbles"
    by (simp add: example_graphics_scene_items)
  from styleEdges_assigns_styles[OF h, of 2 example_graphics_scene] e
  have b: "edge_style (snd (styleEdges Bubbles 2 example_graphics_scene)) (Edge 0) = DotsWithText"
    by (simp add: example_graphics_scene_items)
  from styleEdges_assigns_styles[OF h, of 0 example_graphics_scene] e
  have c: "edge_style (snd (styleEdges Bubbles 0 example_graphics_scene)) (Edge 0) = Bubbles"
    by (simp add: example_graphics_scene_items)
  from a b c show ?thesis by blast
qed

text \<open>
  Claim C10.  For a default style that is not \<^verbatim>\<open>Bubbles\<close>, \<^verbatim>\<open>Bars\<close> or \<^verbatim>\<open>Plain\<close> the
  dictionary lookup raises \<^verbatim>\<open>KeyError\<close> and the scene, with the style of every edge, is
  as it was.
\<close>

theorem styleEdges_unknown_default:
  assumes "style_default \<notin> {Bubbles, Bars, Plain}"
  shows "styleEdges style_default cutoff self = (Some KeyError, self)"
  using assms by (cases style_default) (simp_all add: styleEdges_def)

theorem styleEdges_unknown_default_witness:
  "styleEdges DotsWithText 3 example_graphics_scene = (Some KeyError, example_graphics_scene) \<and>
   styleEdges Collapsed 3 example_graphics_scene = (Some KeyError, example_graphics_scene) \<and>
   styleEdges PlainWithText 0 example_graphics_scene = (Some KeyError, example_graphics_scene)"
proof -
  have a: "DotsWithText \<notin> {Bubbles, Bars, Plain}" by simp
  have b: "Collapsed \<notin> {Bubbles, Bars, Plain}" by simp
  have c: "PlainWithText \<notin> {Bubbles, Bars, Plain}" by simp
  show ?thesis
    using styleEdges_unknown_default[OF a, of 3 example_graphics_scene]
          styleEdges_unknown_default[OF b, of 3 example_graphics_scene]
          styleEdges_unknown_default[OF c, of 0 example_graphics_scene]
    by blast
qed

section \<open>Hit testing\<close>

lemma loop_first_hit:
  "\<forall>x\<in>set pre. \<not> returns_at_once il x \<Longrightarrow> returns_at_once il item \<Longrightarrow>
   getItemAtPos_loop ie il d (pre @ item # post) ci cd = Some item"
proof (induction pre arbitrary: ci cd)
  case Nil
  then show ?case by (auto simp: returns_at_once_def)
next
  case (Cons x pre)
  from Cons.prems have nx: "\<not> isinstance_Vertex x" "\<not> (isinstance_Label x \<and> \<not> il)"
    by (simp_all add: returns_at_once_def)
  from Cons.prems have rest: "\<forall>x\<in>set pre. \<not> returns_at_once il x" by simp
  show ?case using nx Cons.IH[OF rest Cons.prems(2)] by auto
qed

lemma loop_ignore_edges:
  "\<forall>x\<in>set xs. \<not> returns_at_once il x \<Longrightarrow> getItemAtPos_loop True il d xs ci cd = ci"
  by (induction xs arbitrary: ci cd) (auto simp: returns_at_once_def)

lemma loop_nearest:
  assumes "\<forall>x\<in>set xs. \<not> returns_at_once il x"
    and "(ci = None \<and> cd = None) \<or> (\<exists>c. ci = Some c \<and> cd = Some (d c))"
  shows "((getItemAtPos_loop False il d xs ci cd = None) =
            (ci = None \<and> (\<forall>x\<in>set xs. \<not> isinstance_Edge x))) \<and>
         (\<forall>e. getItemAtPos_loop False il d xs ci cd = Some e \<longrightarrow>
              ((e \<in> set xs \<and> isinstance_Edge e) \<or> ci = Some e) \<and>
              (\<forall>e'\<in>set xs. isinstance_Edge e' \<longrightarrow> d e \<le> d e') \<and>
              (\<forall>c. ci = Some c \<longrightarrow> d e \<le> d c))"
  using assms
proof (induction xs arbitrary: ci cd)
  case Nil
  then show ?case by auto
next
  case (Cons x xs)
  from Cons.prems(1) have nx: "\<not> isinstance_Vertex x" "\<not> (isinstance_Label x \<and> \<not> il)"
    by (simp_all add: returns_at_once_def)
  from Cons.prems(1) have rest: "\<forall>x\<in>set xs. \<not> returns_at_once il x" by simp
  show ?case
  proof (cases "isinstance_Edge x \<and> distance_less (d x) cd")
    case True
    have step: "getItemAtPos_loop False il d (x # xs) ci cd =
                  getItemAtPos_loop False il d xs (Some x) (Some (d x))"
      using nx True by auto
    have ok: "(Some x = None \<and> Some (d x) = None) \<or> (\<exists>c. Some x = Some c \<and> Some (d x) = Some (d c))"
      by simp
    note ih = Cons.IH[OF rest ok]
    have below: "\<forall>c. ci = Some c \<longrightarrow> d x < d c"
      using True Cons.prems(2) by auto
    show ?thesis unfolding step using ih True below by (auto simp: less_imp_le)
  next
    case False
    have step: "getItemAtPos_loop False il d (x # xs) ci cd =
                  getItemAtPos_loop False il d xs ci cd"
      using nx False by auto
    note ih = Cons.IH[OF rest Cons.prems(2)]
    show ?thesis
    proof (cases "isinstance_Edge x")
      case notedge: False
      show ?thesis unfolding step using ih notedge by auto
    next
      case edge: True
      with False have nl: "\<not> distance_less (d x) cd" by simp
      then obtain c where c: "ci = Some c" "cd = Some (d c)" "d c \<le> d x"
        using Cons.prems(2) by (cases cd) auto
      show ?thesis unfolding step using ih c edge by (auto intro: order_trans)
    qed
  qed
qed

text \<open>
  Claim C1, as the code has it.  \<^verbatim>\<open>getItemAtPos\<close> goes through the items at the position
  from the top.  The first item that is a vertex, or a label while labels are not
  ignored, is returned at once, whichever of the two kinds it is.  When there is no
  such item the result is none if edges are ignored or no edge is at the position, and
  otherwise an edge at the position whose distance is minimal among the edges at the
  position.  An absent \<^verbatim>\<open>ignore_labels\<close> stands for the negation of the label movement
  setting.
\<close>

theorem getItemAtPos_order:
  "(\<forall>pre item post.
      at_pos = pre @ item # post \<and>
      (\<forall>x\<in>set pre. \<not> returns_at_once (effective_ignore_labels self ignore_labels) x) \<and>
      returns_at_once (effective_ignore_labels self ignore_labels) item \<longrightarrow>
      getItemAtPos self at_pos distance ignore_edges ignore_labels = Some item) \<and>
   ((\<forall>x\<in>set at_pos. \<not> returns_at_once (effective_ignore_labels self ignore_labels) x) \<and>
    (ignore_edges \<or> (\<forall>x\<in>set at_pos. \<not> isinstance_Edge x)) \<longrightarrow>
      getItemAtPos self at_pos distance ignore_edges ignore_labels = None) \<and>
   ((\<forall>x\<in>set at_pos. \<not> returns_at_once (effective_ignore_labels self ignore_labels) x) \<and>
    \<not> ignore_edges \<and> (\<exists>x\<in>set at_pos. isinstance_Edge x) \<longrightarrow>
      (\<exists>e. getItemAtPos self at_pos distance ignore_edges ignore_labels = Some e \<and>
           e \<in> set at_pos \<and> isinstance_Edge e \<and>
           (\<forall>e'\<in>set at_pos. isinstance_Edge e' \<longrightarrow> distance e \<le> distance e'))) \<and>
   effective_ignore_labels self None = (\<not> label_movement (settings self))"
proof (intro conjI allI impI)
  let ?il = "effective_ignore_labels self ignore_labels"
  have g: "getItemAtPos self at_pos distance ignore_edges ignore_labels =
             getItemAtPos_loop ignore_edges ?il distance at_pos None None"
    by (simp add: getItemAtPos_def effective_ignore_labels_def)
  {
    fix pre item post
    assume "at_pos = pre @ item # post \<and> (\<forall>x\<in>set pre. \<not> returns_at_once ?il x) \<and>
            returns_at_once ?il item"
    then show "getItemAtPos self at_pos distance ignore_edges ignore_labels = Some item"
      unfolding g by (simp add: loop_first_hit)
  }
  {
    assume a: "(\<forall>x\<in>set at_pos. \<not> returns_at_once ?il x) \<and>
               (ignore_edges \<or> (\<forall>x\<in>set at_pos. \<not> isinstance_Edge x))"
    show "getItemAtPos self at_pos distance ignore_edges ignore_labels = None"
    proof (cases ignore_edges)
      case True
      then show ?thesis unfolding g using a by (simp add: loop_ignore_edges)
    next
      case False
      with a have noedge: "\<forall>x\<in>set at_pos. \<not> isinstance_Edge x" by blast
      from a have nohit: "\<forall>x\<in>set at_pos. \<not> returns_at_once ?il x" by blast
      from loop_nearest[OF nohit, of None None distance] noedge False
      show ?thesis unfolding g by simp
    qed
  }
  {
    assume a: "(\<forall>x\<in>set at_pos. \<not> returns_at_once ?il x) \<and> \<not> ignore_edges \<and>
               (\<exists>x\<in>set at_pos. isinstance_Edge x)"
    then have nohit: "\<forall>x\<in>set at_pos. \<not> returns_at_once ?il x" and ie: "\<not> ignore_edges"
      and ex: "\<exists>x\<in>set at_pos. isinstance_Edge x" by blast+
    note n = loop_nearest[OF nohit, of None None distance, simplified]
    from n ex obtain e where e: "getItemAtPos_loop False ?il distance at_pos None None = Some e"
      by (cases "getItemAtPos_loop False ?il distance at_pos None None") auto
    with n have "e \<in> set at_pos \<and> isinstance_Edge e \<and>
                 (\<forall>e'\<in>set at_pos. isinstance_Edge e' \<longrightarrow> distance e \<le> distance e')"
      by blast
    with e ie show "\<exists>e. getItemAtPos self at_pos distance ignore_edges ignore_labels = Some e \<and>
           e \<in> set at_pos \<and> isinstance_Edge e \<and>
           (\<forall>e'\<in>set at_pos. isinstance_Edge e' \<longrightarrow> distance e \<le> distance e')"
      unfolding g by simp
  }
  show "effective_ignore_labels self None = (\<not> label_movement (settings self))"
    by (simp add: effective_ignore_labels_def)
qed

lemma example_settings_label_movement: "label_movement (settings example_graphics_scene) = False"
  by (simp add: example_graphics_scene_def add_child_def create_edge_def bind_def
        addChild_def addItem_def GraphicsScene_init_def Let_def example_settings_def
        Settings_init_def)

text \<open>The theorem on the example scene, where labels are locked: a node below a label
  and two edges is returned; of two edges alone the nearer one is returned; a label
  alone gives nothing.\<close>

theorem getItemAtPos_order_witness:
  "getItemAtPos example_graphics_scene [Label 1, Edge 5, Edge 6, Node 1]
      (\<lambda>i. if i = Edge 5 then 2 else 1) False None = Some (Node 1) \<and>
   (\<exists>e. getItemAtPos example_graphics_scene [Edge 5, Label 1, Edge 6]
           (\<lambda>i. if i = Edge 5 then 2 else 1) False None = Some e \<and>
        e \<in> {Edge 5, Edge 6} \<and> (if e = Edge 5 then 2 else (1::real)) \<le> 1) \<and>
   getItemAtPos example_graphics_scene [Label 1] (\<lambda>i. 0) False None = None"
proof -
  let ?d = "\<lambda>i. if i = Edge 5 then 2 else (1::real)"
  have il: "effective_ignore_labels example_graphics_scene None = True"
    by (simp add: effective_ignore_labels_def example_settings_label_movement)
  have a: "getItemAtPos example_graphics_scene [Label 1, Edge 5, Edge 6, Node 1] ?d False None
             = Some (Node 1)"
  proof -
    have "[Label 1, Edge 5, Edge 6, Node 1] = [Label 1, Edge 5, Edge 6] @ Node 1 # [] \<and>
          (\<forall>x\<in>set [Label 1, Edge 5, Edge 6].
              \<not> returns_at_once (effective_ignore_labels example_graphics_scene None) x) \<and>
          returns_at_once (effective_ignore_labels example_graphics_scene None) (Node 1)"
      by (simp add: il returns_at_once_def)
    with getItemAtPos_order[of "[Label 1, Edge 5, Edge 6, Node 1]" example_graphics_scene None ?d False]
    show ?thesis by blast
  qed
  have b: "\<exists>e. getItemAtPos example_graphics_scene [Edge 5, Label 1, Edge 6] ?d False None = Some e \<and>
              e \<in> {Edge 5, Edge 6} \<and> (if e = Edge 5 then 2 else (1::real)) \<le> 1"
  proof -
    have h: "(\<forall>x\<in>set [Edge 5, Label 1, Edge 6].
                \<not> returns_at_once (effective_ignore_labels example_graphics_scene None) x) \<and>
             \<not> False \<and> (\<exists>x\<in>set [Edge 5, Label 1, Edge 6]. isinstance_Edge x)"
      by (simp add: il returns_at_once_def)
    with getItemAtPos_order[of "[Edge 5, Label 1, Edge 6]" example_graphics_scene None ?d False]
    obtain e where e: "getItemAtPos example_graphics_scene [Edge 5, Label 1, Edge 6] ?d False None = Some e"
      "e \<in> set [Edge 5, Label 1, Edge 6]" "isinstance_Edge e"
      "\<forall>e'\<in>set [Edge 5, Label 1, Edge 6]. isinstance_Edge e' \<longrightarrow> ?d e \<le> ?d e'"
      by blast
    from e(2,3) have m: "e \<in> {Edge 5, Edge 6}" by auto
    from e(4) have "?d e \<le> ?d (Edge 6)" by simp
    then have "(if e = Edge 5 then 2 else (1::real)) \<le> 1" by simp
    with e(1) m show ?thesis by blast
  qed
  have c: "getItemAtPos example_graphics_scene [Label 1] (\<lambda>i. 0) False None = None"
  proof -
    have "(\<forall>x\<in>set [Label 1].
              \<not> returns_at_once (effective_ignore_labels example_graphics_scene None) x) \<and>
          (False \<or> (\<forall>x\<in>set [Label 1]. \<not> isinstance_Edge x))"
      by (simp add: il returns_at_once_def)
    with getItemAtPos_order[of "[Label 1]" example_graphics_scene None "\<lambda>i. 0" False]
    show ?thesis by blast
  qed
  from a b c show ?thesis by blast
qed

text \<open>
  Claim C1 as stated ranks a vertex above a label.  With label movement switched on and
  the label of node 1 lying on top of the node, the label is returned although a vertex
  is at the position.
\<close>

theorem getItemAtPos_label_over_vertex_counterexample:
  "isinstance_Vertex (Node 1) \<and>
   getItemAtPos example_scene_labels_unlocked [Label 1, Node 1] (\<lambda>i. 0) False None
     = Some (Label 1)"
  by (simp add: getItemAtPos_def example_scene_labels_unlocked_def)

section \<open>Adding a child\<close>

lemma add_child_unfold:
  "add_child parent child segments self =
     addItem child
       (addItem (Edge (next_oid self))
          (snd (addChild parent child (Edge (next_oid self))
                  (snd (create_edge parent child segments self)))))"
  by (simp add: add_child_def create_edge_def Let_def split: prod.splits)

lemma addItem_fields:
  "edge_node1 (addItem i s) = edge_node1 s" "edge_node2 (addItem i s) = edge_node2 s"
  "edge_segments (addItem i s) = edge_segments s" "vertex_children (addItem i s) = vertex_children s"
  "vertex_parent (addItem i s) = vertex_parent s"
  "bindings (addItem i s) = bindings s" "next_oid (addItem i s) = next_oid s"
  "i \<in> set (scene_items (addItem i s))"
  "j \<in> set (scene_items s) \<Longrightarrow> j \<in> set (scene_items (addItem i s))"
  by (simp_all add: addItem_def)

lemma addChild_fields:
  "edge_node1 (snd (addChild p c e s)) = edge_node1 s"
  "edge_node2 (snd (addChild p c e s)) = edge_node2 s"
  "edge_segments (snd (addChild p c e s)) = edge_segments s"
  "bindings (snd (addChild p c e s)) = bindings s"
  "next_oid (snd (addChild p c e s)) = next_oid s"
  "scene_items (snd (addChild p c e s)) = scene_items s"
  by (simp_all add: addChild_def)

lemma addChild_registers:
  "vertex_parent s c = None \<Longrightarrow> p \<noteq> c \<Longrightarrow>
   vertex_children (snd (addChild p c e s)) p = vertex_children s p @ [(c, e)] \<and>
   vertex_parent (snd (addChild p c e s)) c = Some p"
  by (simp add: addChild_def)

lemma addChild_rejects:
  "vertex_parent s c \<noteq> None \<or> p = c \<Longrightarrow> addChild p c e s = (False, s)"
  by (auto simp: addChild_def)

lemma create_edge_fields:
  "edge_node1 (snd (create_edge p c n s)) (Edge (next_oid s)) = p"
  "edge_node2 (snd (create_edge p c n s)) (Edge (next_oid s)) = c"
  "edge_segments (snd (create_edge p c n s)) (Edge (next_oid s)) = n"
  "vertex_children (snd (create_edge p c n s)) = vertex_children s"
  "vertex_parent (snd (create_edge p c n s)) = vertex_parent s"
  "scene_items (snd (create_edge p c n s)) = scene_items s"
  "next_oid (snd (create_edge p c n s)) = Suc (next_oid s)"
  "bindings (snd (create_edge p c n s)) =
     bindings s @
       [(highlight_color_property, set_highlight_color (Edge (next_oid s))),
        (label_movement_property, label_set_locked (Edge (next_oid s))),
        (highlight_color_property, label_set_highlight_color (Edge (next_oid s)))]"
  by (simp_all add: create_edge_def bind_def Let_def)

text \<open>
  Claim C3, as the code has it.  \<^verbatim>\<open>add_child(parent, child, segments)\<close> makes a new edge
  from the parent to the child with the given segment count and binds the edge to the
  settings (three bindings); then it has the parent register the pair of child and
  edge; then it adds the edge and the child to the scene.  When the child has no parent
  and is not the parent itself, the pair is registered and the parent becomes the
  child's parent.  When the child has a parent already, or is the parent itself, the
  registration is rejected and every parent relation is as it was; the call is still
  not without effect, and it signals nothing: the edge was made and bound before the
  registration, and the edge and the child are in the scene afterwards.
\<close>

theorem add_child_effect:
  "edge_node1 (add_child parent child segments self) (Edge (next_oid self)) = parent \<and>
   edge_node2 (add_child parent child segments self) (Edge (next_oid self)) = child \<and>
   edge_segments (add_child parent child segments self) (Edge (next_oid self)) = segments \<and>
   (vertex_parent self child = None \<and> parent \<noteq> child \<longrightarrow>
      vertex_children (add_child parent child segments self) parent =
        vertex_children self parent @ [(child, Edge (next_oid self))] \<and>
      vertex_parent (add_child parent child segments self) child = Some parent) \<and>
   (vertex_parent self child \<noteq> None \<or> parent = child \<longrightarrow>
      vertex_children (add_child parent child segments self) = vertex_children self \<and>
      vertex_parent (add_child parent child segments self) = vertex_parent self) \<and>
   Edge (next_oid self) \<in> set (scene_items (add_child parent child segments self)) \<and>
   child \<in> set (scene_items (add_child parent child segments self)) \<and>
   bindings (add_child parent child segments self) =
     bindings self @
       [(highlight_color_property, set_highlight_color (Edge (next_oid self))),
        (label_movement_property, label_set_locked (Edge (next_oid self))),
        (highlight_color_property, label_set_highlight_color (Edge (next_oid self)))] \<and>
   next_oid (add_child parent child segments self) = Suc (next_oid self)"
proof -
  let ?e = "Edge (next_oid self)"
  let ?s1 = "snd (create_edge parent child segments self)"
  let ?s2 = "snd (addChild parent child ?e ?s1)"
  have u: "add_child parent child segments self = addItem child (addItem ?e ?s2)"
    by (rule add_child_unfold)
  have reg: "vertex_parent self child = None \<and> parent \<noteq> child \<longrightarrow>
      vertex_children (add_child parent child segments self) parent =
        vertex_children self parent @ [(child, ?e)] \<and>
      vertex_parent (add_child parent child segments self) child = Some parent"
  proof
    assume a: "vertex_parent self child = None \<and> parent \<noteq> child"
    then have "vertex_parent ?s1 child = None" and "parent \<noteq> child"
      by (simp_all add: create_edge_fields)
    from addChild_registers[OF this, of ?e]
    show "vertex_children (add_child parent child segments self) parent =
            vertex_children self parent @ [(child, ?e)] \<and>
          vertex_parent (add_child parent child segments self) child = Some parent"
      unfolding u by (simp add: addItem_fields create_edge_fields)
  qed
  have rej: "vertex_parent self child \<noteq> None \<or> parent = child \<longrightarrow>
      vertex_children (add_child parent child segments self) = vertex_children self \<and>
      vertex_parent (add_child parent child segments self) = vertex_parent self"
  proof
    assume "vertex_parent self child \<noteq> None \<or> parent = child"
    then have "vertex_parent ?s1 child \<noteq> None \<or> parent = child"
      by (simp add: create_edge_fields)
    from addChild_rejects[OF this, of ?e]
    show "vertex_children (add_child parent child segments self) = vertex_children self \<and>
          vertex_parent (add_child parent child segments self) = vertex_parent self"
      unfolding u by (simp add: addItem_fields create_edge_fields)
  qed
  have rest:
    "edge_node1 (add_child parent child segments self) ?e = parent"
    "edge_node2 (add_child parent child segments self) ?e = child"
    "edge_segments (add_child parent child segments self) ?e = segments"
    "?e \<in> set (scene_items (add_child parent child segments self))"
    "child \<in> set (scene_items (add_child parent child segments self))"
    "bindings (add_child parent child segments self) =
       bindings self @
         [(highlight_color_property, set_highlight_color ?e),
          (label_movement_property, label_set_locked ?e),
          (highlight_color_property, label_set_highlight_color ?e)]"
    "next_oid (add_child parent child segments self) = Suc (next_oid self)"
    unfolding u by (simp_all add: addItem_fields addChild_fields create_edge_fields)
  from reg rej rest show ?thesis by blast
qed

lemma example_graphics_scene_parents:
  "vertex_parent example_graphics_scene (Node 1) = Some (Node 0)"
  "vertex_parent example_graphics_scene (Node 2) = None"
  "vertex_children example_graphics_scene (Node 0) = [(Node 1, Edge 0)]"
  "vertex_children example_graphics_scene (Node 2) = []"
  by (simp_all add: example_graphics_scene_def add_child_def create_edge_def bind_def
        addChild_def addItem_def GraphicsScene_init_def Let_def)

text \<open>The theorem on the example scene, where node 1 is the child of node 0 and node 2
  has no parent: node 2 is registered as a child of node 0; node 1 is not registered as
  a child of node 2, and the new edge is in the scene all the same.\<close>

theorem add_child_effect_witness:
  "vertex_children (add_child (Node 0) (Node 2) 1 example_graphics_scene) (Node 0)
     = [(Node 1, Edge 0), (Node 2, Edge 1)] \<and>
   vertex_parent (add_child (Node 0) (Node 2) 1 example_graphics_scene) (Node 2) = Some (Node 0) \<and>
   vertex_children (add_child (Node 2) (Node 1) 1 example_graphics_scene) (Node 2) = [] \<and>
   vertex_parent (add_child (Node 2) (Node 1) 1 example_graphics_scene) (Node 1) = Some (Node 0) \<and>
   Edge 1 \<in> set (scene_items (add_child (Node 2) (Node 1) 1 example_graphics_scene))"
proof -
  have h1: "vertex_parent example_graphics_scene (Node 2) = None \<and> Node 0 \<noteq> Node 2"
    by (simp add: example_graphics_scene_parents)
  have h2: "vertex_parent example_graphics_scene (Node 1) \<noteq> None \<or> Node 2 = Node 1"
    using example_graphics_scene_parents(1) by simp
  note a = add_child_effect[of "Node 0" "Node 2" 1 example_graphics_scene]
  note b = add_child_effect[of "Node 2" "Node 1" 1 example_graphics_scene]
  from a h1 have a1:
    "vertex_children (add_child (Node 0) (Node 2) 1 example_graphics_scene) (Node 0)
       = vertex_children example_graphics_scene (Node 0) @ [(Node 2, Edge (next_oid example_graphics_scene))]"
    "vertex_parent (add_child (Node 0) (Node 2) 1 example_graphics_scene) (Node 2) = Some (Node 0)"
    by blast+
  from b h2 have b1:
    "vertex_children (add_child (Node 2) (Node 1) 1 example_graphics_scene)
       = vertex_children example_graphics_scene"
    "vertex_parent (add_child (Node 2) (Node 1) 1 example_graphics_scene)
       = vertex_parent example_graphics_scene"
    by blast+
  from b have b2: "Edge (next_oid example_graphics_scene)
                     \<in> set (scene_items (add_child (Node 2) (Node 1) 1 example_graphics_scene))"
    by blast
  show ?thesis
    using a1 b2 example_graphics_scene_items example_graphics_scene_parents unfolding b1
    by simp
qed

text \<open>
  Claim C3 as stated has the call fail without any change when the child has a parent
  already or is the parent itself.  In the example scene node 1 is the child of node 0.
  Adding it as a child of node 2 leaves it the child of node 0, and yet the scene is
  not as it was: three bindings were added and a new edge is among its items.  Adding
  node 0 as its own child adds the bindings as well.
\<close>

theorem add_child_reparent_counterexample:
  "has_parent example_graphics_scene (Node 1) \<and>
   vertex_parent (add_child (Node 2) (Node 1) 1 example_graphics_scene) (Node 1) = Some (Node 0) \<and>
   length (bindings (add_child (Node 2) (Node 1) 1 example_graphics_scene))
     = length (bindings example_graphics_scene) + 3 \<and>
   Edge 1 \<notin> set (scene_items example_graphics_scene) \<and>
   Edge 1 \<in> set (scene_items (add_child (Node 2) (Node 1) 1 example_graphics_scene)) \<and>
   add_child (Node 2) (Node 1) 1 example_graphics_scene \<noteq> example_graphics_scene \<and>
   length (bindings (add_child (Node 0) (Node 0) 1 example_graphics_scene))
     = length (bindings example_graphics_scene) + 3"
proof -
  have hp: "has_parent example_graphics_scene (Node 1)"
    using example_graphics_scene_parents(1) by (simp add: has_parent_def)
  have u: "add_child (Node 2) (Node 1) 1 example_graphics_scene =
             addItem (Node 1) (addItem (Edge 1)
               (snd (addChild (Node 2) (Node 1) (Edge 1)
                  (snd (create_edge (Node 2) (Node 1) 1 example_graphics_scene)))))"
    using add_child_unfold[of "Node 2" "Node 1" 1 example_graphics_scene]
    by (simp add: example_graphics_scene_items)
  have rj: "addChild (Node 2) (Node 1) (Edge 1)
              (snd (create_edge (Node 2) (Node 1) 1 example_graphics_scene))
            = (False, snd (create_edge (Node 2) (Node 1) 1 example_graphics_scene))"
    by (rule addChild_rejects)
       (use example_graphics_scene_parents(1) in \<open>simp add: create_edge_fields\<close>)
  have p: "vertex_parent (add_child (Node 2) (Node 1) 1 example_graphics_scene) (Node 1)
             = Some (Node 0)"
    unfolding u rj using example_graphics_scene_parents(1)
    by (simp add: addItem_fields create_edge_fields)
  have b: "length (bindings (add_child (Node 2) (Node 1) 1 example_graphics_scene))
             = length (bindings example_graphics_scene) + 3"
    unfolding u rj by (simp add: addItem_fields create_edge_fields)
  have n: "Edge 1 \<notin> set (scene_items example_graphics_scene)"
    by (simp add: example_graphics_scene_items)
  have i: "Edge 1 \<in> set (scene_items (add_child (Node 2) (Node 1) 1 example_graphics_scene))"
    unfolding u by (simp add: addItem_fields)
  from n i have ne: "add_child (Node 2) (Node 1) 1 example_graphics_scene \<noteq> example_graphics_scene"
    by auto
  have u0: "add_child (Node 0) (Node 0) 1 example_graphics_scene =
             addItem (Node 0) (addItem (Edge 1)
               (snd (addChild (Node 0) (Node 0) (Edge 1)
                  (snd (create_edge (Node 0) (Node 0) 1 example_graphics_scene)))))"
    using add_child_unfold[of "Node 0" "Node 0" 1 example_graphics_scene]
    by (simp add: example_graphics_scene_items)
  have b0: "length (bindings (add_child (Node 0) (Node 0) 1 example_graphics_scene))
              = length (bindings example_graphics_scene) + 3"
    unfolding u0 by (simp add: addItem_fields addChild_fields create_edge_fields)
  from hp p b n i ne b0 show ?thesis by blast
qed

section \<open>Export\<close>

lemma mouseLeaveEvent_fields:
  "hovered_item (mouseLeaveEvent s) = None"
  "mouseGrabberItem (mouseLeaveEvent s) = mouseGrabberItem s"
  by (simp_all add: mouseLeaveEvent_def split: option.splits)

text \<open>
  Claim C6, as the code has it.  Each of the three exports sends the scene a leave event
  first: afterwards the hovered item of the scene is none, whatever it was before.  The
  mouse grabber of the scene is what it was before the export.
\<close>

theorem export_clears_hover:
  "hovered_item (scene (export_svg file self)) = None \<and>
   hovered_item (scene (export_pdf file self)) = None \<and>
   hovered_item (scene (export_png file self)) = None \<and>
   mouseGrabberItem (scene (export_svg file self)) = mouseGrabberItem (scene self) \<and>
   mouseGrabberItem (scene (export_pdf file self)) = mouseGrabberItem (scene self) \<and>
   mouseGrabberItem (scene (export_png file self)) = mouseGrabberItem (scene self)"
  by (simp add: export_svg_def export_pdf_def export_png_def clear_mouse_def Let_def
        mouseLeaveEvent_fields)

text \<open>The theorem on a view whose scene has node 1 hovered.\<close>

theorem export_clears_hover_witness:
  "hovered_item (scene \<lparr>scene = example_graphics_scene\<lparr>hovered_item := Some (Node 1)\<rparr>,
                        rendered = []\<rparr>) = Some (Node 1) \<and>
   hovered_item (scene (export_png ''graph.png''
      \<lparr>scene = example_graphics_scene\<lparr>hovered_item := Some (Node 1)\<rparr>, rendered = []\<rparr>)) = None"
  using export_clears_hover[of "''graph.png''"
          "\<lparr>scene = example_graphics_scene\<lparr>hovered_item := Some (Node 1)\<rparr>, rendered = []\<rparr>"]
  by simp

text \<open>
  Claim C6 as stated has the grabbed item cleared too.  After a press of the left button
  on node 1 the node is the mouse grabber of the scene, and it still is after an export.
\<close>

theorem export_keeps_grabber_counterexample:
  "mouseGrabberItem (scene example_view_pressed) = Some (Node 1) \<and>
   mouseGrabberItem (scene (export_svg ''graph.svg'' example_view_pressed)) \<noteq> None"
proof -
  have g: "mouseGrabberItem (scene example_view_pressed) = Some (Node 1)"
    by (simp add: example_view_pressed_def mousePressEvent_def mouseMoveEvent_def
          getItemAtPos_def Let_def)
  show ?thesis
    by (simp add: g export_svg_def clear_mouse_def Let_def mouseLeaveEvent_fields)
qed

section \<open>The highlighted edge of the demo scene\<close>


























end
